theory Spec2Isabelle
  imports Complex_Main "HOL-Library.Multiset"
begin

section \<open>GoogleMapCard: data model\<close>

text \<open>
  The component \<^verbatim>\<open>GoogleMapCard\<close> of \<^verbatim>\<open>src/components/GoogleMapCard.tsx\<close>.
  JavaScript numbers are modelled as real numbers: the arithmetic of the source is
  kept operation by operation, the rounding of IEEE doubles is not modelled.
  Fields whose source name clashes with a HOL constant or with a field of another
  record carry a prefix (\<open>poi_\<close>, \<open>pl_\<close>).
\<close>

record UserLocation =
  lat :: real
  lng :: real

datatype poi_type =
  fishing_spot | marina | bait_shop | safety_station | port | fishing_charter | boat_ramp

record FishingPOI =
  poi_id :: nat
  poi_name :: string
  poi_type :: poi_type
  poi_lat :: real
  poi_lng :: real
  distance :: real
  description :: string
  rating :: "real option"
  place_id :: "string option"
  price_level :: "nat option"
  photos :: "string list option"

text \<open>
  A result of the provider (\<^verbatim>\<open>google.maps.places.PlaceResult\<close>), with the members the
  source reads. \<open>pl_geometry\<close> is \<open>Some\<close> when \<^verbatim>\<open>place.geometry && place.geometry.location\<close>
  is truthy, and then holds \<^verbatim>\<open>location.lat()\<close> and \<^verbatim>\<open>location.lng()\<close>; \<open>pl_photos\<close> holds
  the URLs that \<^verbatim>\<open>photo.getUrl\<close> gives for each photo.
\<close>

record PlaceResult =
  pl_name :: "string option"
  pl_geometry :: "UserLocation option"
  pl_vicinity :: "string option"
  pl_rating :: "real option"
  pl_place_id :: "string option"
  pl_price_level :: "nat option"
  pl_photos :: "string list option"

datatype PlacesServiceStatus =
  OK | ZERO_RESULTS | INVALID_REQUEST | NOT_FOUND | OVER_QUERY_LIMIT | REQUEST_DENIED
  | UNKNOWN_ERROR

text \<open>Values of JavaScript, as far as a parsed JSON body and its members go.\<close>

datatype jsval =
  JUndefined | JNull | JBool bool | JNum real | JStr string | JArr "jsval list"
  | JObj "(string \<times> jsval) list"

datatype js_error =
  FetchFailed string
  | HttpError nat
  | JsonParseError
  | InvalidBoundaryData

datatype console_entry =
  ConsoleLog string
  | ConsoleWarn string
  | ConsoleError string "js_error option"

datatype toast = ToastError string | ToastSuccess string

text \<open>
  The state of the component: the React state variables of lines 62 to 74, the two
  refs, and what the component leaves in its environment: the toasts and console
  lines it emitted, the script elements for the engine it appended to the document
  (\<open>scripts\<close>), whether \<^verbatim>\<open>window.google && window.google.maps\<close> is there (\<open>google\<close>),
  whether a \<^verbatim>\<open>checkLoaded\<close> interval is running (\<open>polling\<close>), how many 2000 ms retry
  timers were armed (\<open>retry_waits\<close>) and how many times the nearby search was started
  (\<open>search_runs\<close>).
\<close>

record comp =
  isMounted :: bool
  userLocation :: "UserLocation option"
  isLoading :: bool
  error :: "string option"
  isGoogleMapsLoaded :: bool
  retryCount :: nat
  eezBoundary :: "jsval option"
  googleMapRef :: bool
  toasts :: "toast list"
  console :: "console_entry list"
  google :: bool
  scripts :: nat
  polling :: bool
  retry_waits :: nat
  search_runs :: nat

definition initial :: comp where
  "initial = \<lparr> isMounted = True, userLocation = None, isLoading = True, error = None,
     isGoogleMapsLoaded = False, retryCount = 0, eezBoundary = None, googleMapRef = False,
     toasts = [], console = [], google = False, scripts = 0, polling = False,
     retry_waits = 0, search_runs = 0 \<rparr>"

section \<open>GeoMath: calculateDistance\<close>

text \<open>
  \<^verbatim>\<open>Math.atan2(y, x)\<close>: the angle of the point \<open>(x, y)\<close>, in \<open>(-\<pi>, \<pi>]\<close>.
\<close>

definition atan2 :: "real \<Rightarrow> real \<Rightarrow> real" where
  "atan2 y x =
     (if 0 < x then arctan (y / x)
      else if x < 0 then (if 0 \<le> y then arctan (y / x) + pi else arctan (y / x) - pi)
      else if 0 < y then pi / 2
      else if y < 0 then - (pi / 2)
      else 0)"

text \<open>
  Lines 712 to 722, one definition for each \<^verbatim>\<open>const\<close> of the source. The numbers
  of the source are IEEE doubles; here they are real numbers, and every operation
  is exact. Over the reals \<open>a\<close> lies between 0 and 1, so both square roots exist.
  In the doubles of the source \<open>a\<close> can round to a value above 1 for two points
  that are (nearly) antipodal; \<^verbatim>\<open>Math.sqrt(1 - a)\<close> is then \<^verbatim>\<open>NaN\<close> and so is the
  distance. Nothing below speaks of such pairs: what is proved of
  \<open>calculateDistance\<close> is proved of the exact formula.
\<close>

definition R_earth :: real where
  "R_earth = 6371"

definition dLat :: "UserLocation \<Rightarrow> UserLocation \<Rightarrow> real" where
  "dLat point1 point2 = (lat point2 - lat point1) * pi / 180"

definition dLng :: "UserLocation \<Rightarrow> UserLocation \<Rightarrow> real" where
  "dLng point1 point2 = (lng point2 - lng point1) * pi / 180"

definition hav_a :: "UserLocation \<Rightarrow> UserLocation \<Rightarrow> real" where
  "hav_a point1 point2 =
     sin (dLat point1 point2 / 2) * sin (dLat point1 point2 / 2) +
     cos (lat point1 * pi / 180) * cos (lat point2 * pi / 180) *
     sin (dLng point1 point2 / 2) * sin (dLng point1 point2 / 2)"

definition calculateDistance :: "UserLocation \<Rightarrow> UserLocation \<Rightarrow> real" where
  "calculateDistance point1 point2 =
     (let a = hav_a point1 point2;
          c = 2 * atan2 (sqrt a) (sqrt (1 - a))
      in R_earth * c)"

text \<open>
  For the proofs: the point of the unit sphere at a latitude and longitude given in
  degrees, and the scalar product of two such points, which is the cosine of the
  angle between them.
\<close>

definition rad :: "real \<Rightarrow> real" where
  "rad d = d * pi / 180"

definition ux :: "UserLocation \<Rightarrow> real" where
  "ux p = cos (rad (lat p)) * cos (rad (lng p))"

definition uy :: "UserLocation \<Rightarrow> real" where
  "uy p = cos (rad (lat p)) * sin (rad (lng p))"

definition uz :: "UserLocation \<Rightarrow> real" where
  "uz p = sin (rad (lat p))"

definition unit_dot :: "UserLocation \<Rightarrow> UserLocation \<Rightarrow> real" where
  "unit_dot p q = ux p * ux q + uy p * uy q + uz p * uz q"

section \<open>BoundaryStore: fetchEezBoundary\<close>

text \<open>
  What \<^verbatim>\<open>fetch\<close> gives: it rejects (\<open>Inl\<close>, a transport error with its message), or it
  resolves to a response with a status and a body; \<open>body = None\<close> when
  \<^verbatim>\<open>response.json()\<close> rejects (the body is not JSON).
\<close>

record http_response =
  status :: nat
  body :: "jsval option"

definition response_ok :: "http_response \<Rightarrow> bool" where
  "response_ok r = (200 \<le> status r \<and> status r \<le> 299)"

fun truthy :: "jsval \<Rightarrow> bool" where
  "truthy JUndefined = False"
| "truthy JNull = False"
| "truthy (JBool b) = b"
| "truthy (JNum r) = (r \<noteq> 0)"
| "truthy (JStr s) = (s \<noteq> [])"
| "truthy (JArr xs) = True"
| "truthy (JObj kvs) = True"

text \<open>
  Member access \<^verbatim>\<open>v.k\<close> for the members the source reads (\<^verbatim>\<open>type\<close>, \<^verbatim>\<open>features\<close>,
  \<^verbatim>\<open>length\<close>). On \<^verbatim>\<open>null\<close> and \<^verbatim>\<open>undefined\<close> JavaScript throws; the source reads a member
  only behind a truthiness test of \<open>v\<close>, so that case is never evaluated.
\<close>

fun member :: "jsval \<Rightarrow> string \<Rightarrow> jsval" where
  "member (JObj kvs) k = (case map_of kvs k of Some v \<Rightarrow> v | None \<Rightarrow> JUndefined)"
| "member (JStr s) k = (if k = ''length'' then JNum (real (length s)) else JUndefined)"
| "member (JArr xs) k = (if k = ''length'' then JNum (real (length xs)) else JUndefined)"
| "member v k = JUndefined"

text \<open>
  \<^verbatim>\<open>v > 0\<close>. A number is compared as it is, \<^verbatim>\<open>undefined\<close> is \<^verbatim>\<open>NaN\<close>, \<^verbatim>\<open>null\<close> is 0,
  \<^verbatim>\<open>true\<close> is 1; a string, an array or an object is first converted by the
  language's \<^verbatim>\<open>ToNumber\<close>, which is the parameter \<open>to_number\<close> (\<open>None\<close> for \<^verbatim>\<open>NaN\<close>).
\<close>

fun gt_zero :: "(jsval \<Rightarrow> real option) \<Rightarrow> jsval \<Rightarrow> bool" where
  "gt_zero to_number (JNum r) = (0 < r)"
| "gt_zero to_number JUndefined = False"
| "gt_zero to_number JNull = False"
| "gt_zero to_number (JBool b) = b"
| "gt_zero to_number v = (case to_number v of None \<Rightarrow> False | Some r \<Rightarrow> 0 < r)"

text \<open>
  Line 93:
  \<^verbatim>\<open>data && data.type === 'FeatureCollection' && data.features && data.features.length > 0\<close>
\<close>

definition valid_geojson :: "(jsval \<Rightarrow> real option) \<Rightarrow> jsval \<Rightarrow> bool" where
  "valid_geojson to_number data =
     (if \<not> truthy data then False
      else if member data ''type'' \<noteq> JStr ''FeatureCollection'' then False
      else if \<not> truthy (member data ''features'') then False
      else gt_zero to_number (member (member data ''features'') ''length''))"

text \<open>The body of the \<^verbatim>\<open>try\<close> block, lines 84 to 98: \<open>Inl\<close> is what it throws.\<close>

definition fetch_try :: "(jsval \<Rightarrow> real option) \<Rightarrow> string + http_response \<Rightarrow> comp \<Rightarrow> js_error + comp" where
  "fetch_try to_number fetched s =
     (case fetched of
        Inl msg \<Rightarrow> Inl (FetchFailed msg)
      | Inr response \<Rightarrow>
          if \<not> response_ok response then Inl (HttpError (status response))
          else (case body response of
              None \<Rightarrow> Inl JsonParseError
            | Some data \<Rightarrow>
                if valid_geojson to_number data
                then Inr (s\<lparr> eezBoundary := Some data,
                    console := console s @ [ConsoleLog ''Indian EEZ boundary loaded successfully''] \<rparr>)
                else Inl InvalidBoundaryData))"

text \<open>The \<^verbatim>\<open>catch\<close> block, lines 99 to 103.\<close>

definition fetch_catch :: "js_error \<Rightarrow> comp \<Rightarrow> js_error + comp" where
  "fetch_catch e s =
     Inr (s\<lparr> console := console s @ [ConsoleError ''Error fetching Indian EEZ boundary:'' (Some e)],
         eezBoundary := None \<rparr>)"

definition fetchEezBoundary :: "(jsval \<Rightarrow> real option) \<Rightarrow> string + http_response \<Rightarrow> comp \<Rightarrow> js_error + comp" where
  "fetchEezBoundary to_number fetched s =
     (case fetch_try to_number fetched s of
        Inl e \<Rightarrow> fetch_catch e s
      | Inr s' \<Rightarrow> Inr s')"

text \<open>
  The shape the specification asks of an accepted body: a feature collection
  with at least one feature, that is an object whose \<^verbatim>\<open>type\<close> is
  \<^verbatim>\<open>'FeatureCollection'\<close> and whose \<^verbatim>\<open>features\<close> is a non-empty array.
\<close>

fun nonempty_array :: "jsval \<Rightarrow> bool" where
  "nonempty_array (JArr fs) = (fs \<noteq> [])"
| "nonempty_array v = False"

fun feature_collection :: "jsval \<Rightarrow> bool" where
  "feature_collection (JObj kvs) =
     (map_of kvs ''type'' = Some (JStr ''FeatureCollection'') \<and>
      nonempty_array (member (JObj kvs) ''features''))"
| "feature_collection v = False"

section \<open>EngineLoader: loadGoogleMaps\<close>

text \<open>
  What happens to a script element once it is appended: \<^verbatim>\<open>onerror\<close> fires, or
  \<^verbatim>\<open>onload\<close> fires and, 100 ms later, the API surface
  \<^verbatim>\<open>window.google && window.google.maps\<close> is there (\<open>ScriptLoad True\<close>) or is not.
\<close>

datatype script_outcome = ScriptError | ScriptLoad bool

text \<open>
  Lines 119 to 177. \<open>closure_retryCount\<close> is the value of the state variable
  \<^verbatim>\<open>retryCount\<close> in the render whose \<^verbatim>\<open>loadGoogleMaps\<close> is running: the function reads
  the constant of its own render, and the retry timer calls the
  \<^verbatim>\<open>loadGoogleMaps\<close> of that same render. \<open>net k\<close> is the outcome of the script
  element appended when \<open>k\<close> elements were there already. The failed element
  stays in the document: nothing in the source removes it, so
  \<^verbatim>\<open>document.querySelector('script[src*="maps.googleapis.com"]')\<close> finds it from then on.
\<close>

function loadGoogleMaps :: "nat \<Rightarrow> string option \<Rightarrow> (nat \<Rightarrow> script_outcome) \<Rightarrow> comp \<Rightarrow> comp" where
  "loadGoogleMaps closure_retryCount apiKey net s =
     (if google s then s\<lparr> isGoogleMapsLoaded := True \<rparr>
      else if 0 < scripts s then s\<lparr> polling := True \<rparr>
      else if apiKey = None \<or> apiKey = Some [] then
        s\<lparr> console := console s @ [ConsoleError ''Google Maps API key missing'' None],
           error := Some ''Google Maps API key is not configured. Please add NEXT_PUBLIC_GOOGLE_MAPS_API_KEY to your environment variables.'',
           isLoading := False \<rparr>
      else
        (case net (scripts s) of
           ScriptLoad present \<Rightarrow>
             if present
             then s\<lparr> scripts := scripts s + 1, google := True, isGoogleMapsLoaded := True \<rparr>
             else s\<lparr> scripts := scripts s + 1,
                 console := console s @
                   [ConsoleError ''Google Maps script loaded but API not available'' None],
                 error := Some ''Google Maps loaded but API not available'',
                 isLoading := False \<rparr>
         | ScriptError \<Rightarrow>
             if closure_retryCount < 3
             then loadGoogleMaps closure_retryCount apiKey net
               (s\<lparr> scripts := scripts s + 1,
                  console := console s @ [ConsoleError ''Google Maps script failed to load:'' None],
                  retryCount := retryCount s + 1,
                  retry_waits := retry_waits s + 1 \<rparr>)
             else s\<lparr> scripts := scripts s + 1,
                 console := console s @ [ConsoleError ''Google Maps script failed to load:'' None],
                 error := Some ''Failed to load Google Maps after 3 attempts. Please check your internet connection and API key.'',
                 isLoading := False \<rparr>))"
  by pat_completeness auto
termination
  by (relation "measure (\<lambda>(c, k, net, s). if scripts s = 0 then 1 else 0)") auto

text \<open>One tick of the \<^verbatim>\<open>checkLoaded\<close> interval of lines 130 to 135.\<close>

definition checkLoaded :: "comp \<Rightarrow> comp" where
  "checkLoaded s =
     (if polling s \<and> google s then s\<lparr> polling := False, isGoogleMapsLoaded := True \<rparr> else s)"

section \<open>LocationProvider: getCurrentLocation\<close>

text \<open>
  What the browser answers: no \<^verbatim>\<open>navigator.geolocation\<close>, a position, or a
  \<^verbatim>\<open>GeolocationPositionError\<close> with its \<^verbatim>\<open>code\<close> (\<^verbatim>\<open>PERMISSION_DENIED\<close> is 1,
  \<^verbatim>\<open>POSITION_UNAVAILABLE\<close> is 2, \<^verbatim>\<open>TIMEOUT\<close> is 3).
\<close>

datatype geo_result = Unsupported | Position real real | PositionError nat

definition chennai :: UserLocation where
  "chennai = \<lparr> lat = 13.0827, lng = 80.2707 \<rparr>"

text \<open>The \<^verbatim>\<open>switch\<close> of lines 236 to 253: the error message and the toast.\<close>

definition switch_code :: "nat \<Rightarrow> string \<times> toast" where
  "switch_code code =
     (if code = 1 then
        (''Location access denied. Please allow location access and try again.'',
         ToastError ''Location permission denied. Using Chennai as default.'')
      else if code = 2 then
        (''Location information unavailable. Using Chennai as default.'',
         ToastError ''Location unavailable. Using Chennai as default.'')
      else if code = 3 then
        (''Location request timed out. Using Chennai as default.'',
         ToastError ''Location timeout. Using Chennai as default.'')
      else
        (''Unknown location error. Using Chennai as default.'',
         ToastError ''Location error. Using Chennai as default.''))"

text \<open>
  Lines 190 to 261. \<open>toFixed4\<close> is \<^verbatim>\<open>Number.prototype.toFixed(4)\<close>. Centring the map
  widget (lines 222 to 225) is left to the widget.
\<close>

definition getCurrentLocation :: "(real \<Rightarrow> string) \<Rightarrow> geo_result \<Rightarrow> comp \<Rightarrow> comp" where
  "getCurrentLocation toFixed4 geo s0 =
     (let s = s0\<lparr> isLoading := True \<rparr> in
      case geo of
        Unsupported \<Rightarrow>
          s\<lparr> error := Some ''Geolocation is not supported by this browser. Using default location (Chennai).'',
             userLocation := Some \<lparr> lat = 13.0827, lng = 80.2707 \<rparr>,
             isLoading := False,
             toasts := toasts s @ [ToastError ''Geolocation not supported. Using Chennai as default.''] \<rparr>
      | Position latitude longitude \<Rightarrow>
          s\<lparr> console := console s @ [ConsoleLog ''Geolocation obtained:'', ConsoleLog ''Accuracy:''],
             userLocation := Some \<lparr> lat = latitude, lng = longitude \<rparr>,
             isLoading := False,
             error := None,
             toasts := toasts s @
               [ToastSuccess (''Location updated: '' @ toFixed4 latitude @ '', '' @ toFixed4 longitude)] \<rparr>
      | PositionError code \<Rightarrow>
          s\<lparr> console := console s @ [ConsoleError ''Geolocation error:'' None],
             toasts := toasts s @ [snd (switch_code code)],
             userLocation := Some \<lparr> lat = 13.0827, lng = 80.2707 \<rparr>,
             error := Some (fst (switch_code code)),
             isLoading := False \<rparr>)"

text \<open>The outcome of an acquisition: the branch that \<^verbatim>\<open>getCurrentLocation\<close> takes.\<close>

datatype location_outcome =
  measured | permission_denied | position_unavailable | timeout | unsupported | unknown

definition outcome_of :: "geo_result \<Rightarrow> location_outcome" where
  "outcome_of geo =
     (case geo of
        Unsupported \<Rightarrow> unsupported
      | Position latitude longitude \<Rightarrow> measured
      | PositionError code \<Rightarrow>
          if code = 1 then permission_denied
          else if code = 2 then position_unavailable
          else if code = 3 then timeout
          else unknown)"

section \<open>The readiness gate\<close>





text \<open>
  \<^verbatim>\<open>googleMapRef\<close> is a ref, not state: the assignment of line 344 causes no render.
  The guard of line 829, under which the border monitor is rendered, is evaluated
  when the component renders, so it sees the map only at a render that follows a
  later change of state. The renders are not part of this model, and nothing below
  says when the monitor is rendered.
\<close>








definition boundary_valid :: "(jsval \<Rightarrow> real option) \<Rightarrow> string + http_response \<Rightarrow> bool" where
  "boundary_valid to_number fetched =
     (case fetched of
        Inl msg \<Rightarrow> False
      | Inr response \<Rightarrow>
          response_ok response \<and>
          (case body response of None \<Rightarrow> False | Some data \<Rightarrow> valid_geojson to_number data))"


text \<open>Environments for the scenarios below.\<close>

definition net_fails :: "nat \<Rightarrow> script_outcome" where
  "net_fails n = ScriptError"

definition net_fails_twice :: "nat \<Rightarrow> script_outcome" where
  "net_fails_twice n = (if n < 2 then ScriptError else ScriptLoad True)"


definition net_no_surface :: "nat \<Rightarrow> script_outcome" where
  "net_no_surface n = ScriptLoad False"

definition plain_toFixed :: "real \<Rightarrow> string" where
  "plain_toFixed r = ''0.0000''"

definition stringly_body :: jsval where
  "stringly_body = JObj [(''type'', JStr ''FeatureCollection''), (''features'', JStr ''x'')]"


section \<open>SearchOrchestrator: searchNearbyFishingPlaces\<close>

definition searches :: "(string \<times> poi_type) list" where
  "searches =
     [(''fishing marina harbor'', marina),
      (''fishing spot pier jetty'', fishing_spot),
      (''bait tackle fishing shop'', bait_shop),
      (''coast guard marine safety'', safety_station),
      (''port harbor dock'', port),
      (''fishing charter boat tours'', fishing_charter),
      (''boat ramp launch'', boat_ramp)]"

text \<open>
  The variables of one run (lines 598 and 599) and what the run leaves behind: the
  arguments of each \<^verbatim>\<open>setFishingPOIs\<close> call, the markers put on the map, the console
  lines.
\<close>

record search_run =
  allPOIs :: "FishingPOI list"
  searchesCompleted :: nat
  setFishingPOIs_calls :: "FishingPOI list list"
  markers :: "FishingPOI list"
  warnings :: "console_entry list"

definition new_run :: search_run where
  "new_run = \<lparr> allPOIs = [], searchesCompleted = 0, setFishingPOIs_calls = [], markers = [],
     warnings = [] \<rparr>"

text \<open>\<^verbatim>\<open>s || d\<close> on an optional string: the empty string is falsy too.\<close>

definition or_else :: "string option \<Rightarrow> string \<Rightarrow> string" where
  "or_else s d = (case s of None \<Rightarrow> d | Some v \<Rightarrow> if v = [] then d else v)"

text \<open>The object literal of lines 617 to 634.\<close>

definition make_poi :: "UserLocation \<Rightarrow> nat \<Rightarrow> poi_type \<Rightarrow> nat \<Rightarrow> PlaceResult \<Rightarrow> UserLocation \<Rightarrow> FishingPOI" where
  "make_poi location index ty placeIndex place loc =
     \<lparr> poi_id = index * 10 + placeIndex,
       poi_name = or_else (pl_name place) ''Unknown Location'',
       poi_type = ty,
       poi_lat = lat loc,
       poi_lng = lng loc,
       distance = calculateDistance location \<lparr> lat = lat loc, lng = lng loc \<rparr>,
       description = or_else (pl_vicinity place) ''No description available'',
       rating = pl_rating place,
       place_id = pl_place_id place,
       price_level = pl_price_level place,
       photos = map_option (take 1) (pl_photos place) \<rparr>"

text \<open>The \<^verbatim>\<open>forEach\<close> of lines 615 to 641, from \<open>placeIndex\<close> on.\<close>

fun forEach_place :: "UserLocation \<Rightarrow> nat \<Rightarrow> poi_type \<Rightarrow> nat \<Rightarrow> PlaceResult list \<Rightarrow> search_run \<Rightarrow> search_run" where
  "forEach_place location index ty placeIndex [] r = r"
| "forEach_place location index ty placeIndex (place # rest) r =
     forEach_place location index ty (Suc placeIndex) rest
       (case pl_geometry place of
          None \<Rightarrow> r
        | Some loc \<Rightarrow>
            r\<lparr> allPOIs := allPOIs r @ [make_poi location index ty placeIndex place loc],
               markers := markers r @ [make_poi location index ty placeIndex place loc] \<rparr>)"

text \<open>
  Lines 647 to 650 and 655 to 658. \<^verbatim>\<open>Array.prototype.sort\<close> with the comparator
  \<^verbatim>\<open>(a, b) => a.distance - b.distance\<close> is the stable sort by \<^verbatim>\<open>distance\<close>; it sorts
  \<^verbatim>\<open>allPOIs\<close> in place.
\<close>

definition finish :: "search_run \<Rightarrow> search_run" where
  "finish r =
     (if searchesCompleted r = length searches
      then r\<lparr> allPOIs := sort_key distance (allPOIs r),
          setFishingPOIs_calls := setFishingPOIs_calls r @ [sort_key distance (allPOIs r)] \<rparr>
      else r)"

text \<open>
  How the query of one category ends: the provider calls back with a status and
  results (\<open>None\<close> for \<^verbatim>\<open>null\<close>), or \<^verbatim>\<open>nearbySearch\<close> throws.
\<close>

datatype search_outcome = Callback PlacesServiceStatus "PlaceResult list option" | Thrown

fun status_name :: "PlacesServiceStatus \<Rightarrow> string" where
  "status_name OK = ''OK''"
| "status_name ZERO_RESULTS = ''ZERO_RESULTS''"
| "status_name INVALID_REQUEST = ''INVALID_REQUEST''"
| "status_name NOT_FOUND = ''NOT_FOUND''"
| "status_name OVER_QUERY_LIMIT = ''OVER_QUERY_LIMIT''"
| "status_name REQUEST_DENIED = ''REQUEST_DENIED''"
| "status_name UNKNOWN_ERROR = ''UNKNOWN_ERROR''"

text \<open>The callback of lines 611 to 651.\<close>

definition nearbySearch_callback :: "UserLocation \<Rightarrow> nat \<Rightarrow> PlacesServiceStatus \<Rightarrow> PlaceResult list option \<Rightarrow> search_run \<Rightarrow> search_run" where
  "nearbySearch_callback location index st results r =
     (let r1 = r\<lparr> searchesCompleted := searchesCompleted r + 1 \<rparr>;
          r2 = (if st = OK \<and> results \<noteq> None
                then forEach_place location index (snd (searches ! index)) 0
                  (take 3 (the results)) r1
                else if st \<noteq> OK
                then r1\<lparr> warnings := warnings r1 @
                  [ConsoleWarn (''Places search failed with status: '' @ status_name st @
                     '' for '' @ fst (searches ! index))] \<rparr>
                else r1)
      in finish r2)"

text \<open>The \<^verbatim>\<open>catch\<close> block of lines 652 to 659.\<close>

definition nearbySearch_catch :: "nat \<Rightarrow> search_run \<Rightarrow> search_run" where
  "nearbySearch_catch index r =
     finish (r\<lparr> warnings := warnings r @
         [ConsoleError (''Error searching for '' @ fst (searches ! index) @ '':'') None],
       searchesCompleted := searchesCompleted r + 1 \<rparr>)"

text \<open>
  The end of the query of category \<open>index\<close>. \<^verbatim>\<open>searches.forEach\<close> arms one timer for
  each index below \<^verbatim>\<open>searches.length\<close> and no other.
\<close>

definition query_ends :: "UserLocation \<Rightarrow> nat \<times> search_outcome \<Rightarrow> search_run \<Rightarrow> search_run" where
  "query_ends location ev r =
     (if fst ev < length searches
      then (case snd ev of
          Callback st results \<Rightarrow> nearbySearch_callback location (fst ev) st results r
        | Thrown \<Rightarrow> nearbySearch_catch (fst ev) r)
      else r)"

text \<open>
  One run: the queries end in the order of \<open>evs\<close>, each with its category index.
\<close>

definition searchNearbyFishingPlaces :: "UserLocation \<Rightarrow> (nat \<times> search_outcome) list \<Rightarrow> search_run" where
  "searchNearbyFishingPlaces location evs = fold (query_ends location) evs new_run"

text \<open>One query for each category: the indexes of \<open>evs\<close> are those of \<^verbatim>\<open>searches\<close>, once each.\<close>

definition one_per_category :: "(nat \<times> search_outcome) list \<Rightarrow> bool" where
  "one_per_category evs =
     (distinct (map fst evs) \<and> set (map fst evs) = {0..<length searches})"

text \<open>
  The entries that the results of one category are to give: one for each of its
  first three results that has a geometry, numbered by the position of the result.
\<close>

fun pois_from :: "UserLocation \<Rightarrow> nat \<Rightarrow> poi_type \<Rightarrow> nat \<Rightarrow> PlaceResult list \<Rightarrow> FishingPOI list" where
  "pois_from location index ty placeIndex [] = []"
| "pois_from location index ty placeIndex (place # rest) =
     (case pl_geometry place of
        None \<Rightarrow> []
      | Some loc \<Rightarrow> [make_poi location index ty placeIndex place loc])
     @ pois_from location index ty (Suc placeIndex) rest"

definition event_pois :: "UserLocation \<Rightarrow> nat \<times> search_outcome \<Rightarrow> FishingPOI list" where
  "event_pois location ev =
     (case snd ev of
        Callback st results \<Rightarrow>
          (if st = OK \<and> results \<noteq> None
           then pois_from location (fst ev) (snd (searches ! fst ev)) 0 (take 3 (the results))
           else [])
      | Thrown \<Rightarrow> [])"

definition discovered :: "UserLocation \<Rightarrow> (nat \<times> search_outcome) list \<Rightarrow> FishingPOI list" where
  "discovered location evs = concat (map (event_pois location) evs)"

text \<open>Provider answers for the scenarios below.\<close>

definition place_at :: "string \<Rightarrow> real \<Rightarrow> real \<Rightarrow> PlaceResult" where
  "place_at pid latitude longitude =
     \<lparr> pl_name = Some pid, pl_geometry = Some \<lparr> lat = latitude, lng = longitude \<rparr>,
       pl_vicinity = None, pl_rating = None, pl_place_id = Some pid, pl_price_level = None,
       pl_photos = None \<rparr>"

definition place_without_geometry :: PlaceResult where
  "place_without_geometry =
     \<lparr> pl_name = Some ''nowhere'', pl_geometry = None, pl_vicinity = None, pl_rating = None,
       pl_place_id = Some ''nowhere'', pl_price_level = None, pl_photos = None \<rparr>"

definition two_results :: search_outcome where
  "two_results = Callback OK (Some [place_at ''a'' 13.10 80.30, place_at ''b'' 13.05 80.25])"

text \<open>Seven categories, the fourth of which (index 3) throws; it ends before category 4.\<close>

definition seven_queries :: "(nat \<times> search_outcome) list" where
  "seven_queries =
     [(0, two_results), (1, two_results), (2, two_results), (3, Thrown), (4, two_results),
      (5, two_results), (6, two_results)]"

text \<open>
  The place \<open>p\<close> is found by the categories 0 and 4; in category 0 it comes second,
  after a result without geometry. The other categories give nothing.
\<close>

definition shared_place_queries :: "(nat \<times> search_outcome) list" where
  "shared_place_queries =
     [(0, Callback OK (Some [place_without_geometry, place_at ''p'' 13.10 80.30])),
      (1, Callback ZERO_RESULTS (Some [])),
      (2, Thrown),
      (3, Callback OK None),
      (4, Callback OK (Some [place_at ''p'' 13.10 80.30])),
      (5, Callback OK (Some [])),
      (6, Callback UNKNOWN_ERROR None)]"

text \<open>
  Category 0 (\<^verbatim>\<open>marina\<close>) finds one place, at \<open>(13.10, 80.30)\<close>; the other categories
  find nothing.
\<close>

definition marina_only_queries :: "(nat \<times> search_outcome) list" where
  "marina_only_queries =
     [(0, Callback OK (Some [place_at ''marina'' 13.10 80.30])),
      (1, Callback ZERO_RESULTS (Some [])),
      (2, Callback ZERO_RESULTS (Some [])),
      (3, Callback ZERO_RESULTS (Some [])),
      (4, Callback ZERO_RESULTS (Some [])),
      (5, Callback ZERO_RESULTS (Some [])),
      (6, Callback ZERO_RESULTS (Some []))]"

section \<open>Properties of the engine loader\<close>

lemma loadGoogleMaps_appends_once:
  "scripts s = 0 \<Longrightarrow> scripts (loadGoogleMaps c k net s) \<le> 1"
  by (subst loadGoogleMaps.simps, subst loadGoogleMaps.simps)
     (auto split: script_outcome.splits)

text \<open>
  C4. With a key configured and a script that fails to load, the loader appends
  one script element, arms one retry timer, and the retried \<^verbatim>\<open>loadGoogleMaps\<close> finds
  the failed element in the document and starts polling instead of loading again:
  one load attempt, not three, and neither the failed state (\<open>error\<close> stays unset,
  \<open>isLoading\<close> is not cleared) nor the ready state is reached, whether the network
  would fail for ever or recover at the third attempt. A tick of the polling
  interval changes nothing.
\<close>

theorem loadGoogleMaps_failure_polls:
  "loadGoogleMaps 0 (Some ''key'') net_fails initial =
     initial\<lparr> scripts := 1,
       console := [ConsoleError ''Google Maps script failed to load:'' None],
       retryCount := 1, retry_waits := 1, polling := True \<rparr> \<and>
   loadGoogleMaps 0 (Some ''key'') net_fails_twice initial =
     loadGoogleMaps 0 (Some ''key'') net_fails initial \<and>
   scripts (loadGoogleMaps 0 (Some ''key'') net_fails initial) = 1 \<and>
   error (loadGoogleMaps 0 (Some ''key'') net_fails initial) = None \<and>
   isLoading (loadGoogleMaps 0 (Some ''key'') net_fails initial) \<and>
   \<not> isGoogleMapsLoaded (loadGoogleMaps 0 (Some ''key'') net_fails_twice initial) \<and>
   checkLoaded (loadGoogleMaps 0 (Some ''key'') net_fails initial) =
     loadGoogleMaps 0 (Some ''key'') net_fails initial"
  by (simp add: initial_def net_fails_def net_fails_twice_def checkLoaded_def)

text \<open>
  C5, as the claim states it, fails: when the script loads and the API surface is
  absent after the settle delay, the loader stops at once with an error of its own,
  with no retry wait, although retries remain; the transport failure at the same
  point arms a retry.
\<close>

theorem surface_absent_counterexample:
  "retry_waits (loadGoogleMaps 0 (Some ''key'') net_no_surface initial) = 0 \<and>
   retryCount (loadGoogleMaps 0 (Some ''key'') net_no_surface initial) = 0 \<and>
   scripts (loadGoogleMaps 0 (Some ''key'') net_no_surface initial) = 1 \<and>
   error (loadGoogleMaps 0 (Some ''key'') net_no_surface initial) =
     Some ''Google Maps loaded but API not available'' \<and>
   \<not> isLoading (loadGoogleMaps 0 (Some ''key'') net_no_surface initial) \<and>
   retry_waits (loadGoogleMaps 0 (Some ''key'') net_fails initial) = 1"
  by (simp add: initial_def net_fails_def net_no_surface_def)

text \<open>
  C5, amended: when the engine is not there, no script element is in the document,
  a key is configured, and the script loads with the API surface absent after the
  settle delay, the loader ends in a failed state with the message
  \<^verbatim>\<open>Google Maps loaded but API not available\<close>, whatever retry count its closure
  holds: one load attempt, no retry wait, the retry counter untouched.
\<close>

theorem surface_absent_is_terminal:
  assumes "\<not> google s" and "scripts s = 0" and "apiKey \<noteq> None" and "apiKey \<noteq> Some []"
    and "net 0 = ScriptLoad False"
  shows "loadGoogleMaps c apiKey net s =
     s\<lparr> scripts := 1,
        console := console s @
          [ConsoleError ''Google Maps script loaded but API not available'' None],
        error := Some ''Google Maps loaded but API not available'',
        isLoading := False \<rparr>"
  using assms by simp

theorem surface_absent_is_terminal_witness:
  "\<not> google initial \<and> scripts initial = 0 \<and> Some ''key'' \<noteq> (None :: string option) \<and>
   Some ''key'' \<noteq> Some [] \<and> net_no_surface 0 = ScriptLoad False \<and>
   loadGoogleMaps 2 (Some ''key'') net_no_surface initial =
     initial\<lparr> scripts := 1,
        console := [ConsoleError ''Google Maps script loaded but API not available'' None],
        error := Some ''Google Maps loaded but API not available'',
        isLoading := False \<rparr>"
  using surface_absent_is_terminal [of initial "Some ''key''" net_no_surface 2]
  by (simp add: initial_def net_no_surface_def)

section \<open>Properties of the location provider\<close>

text \<open>
  C6. Every acquisition that fails takes one of the five failure branches
  (permission denied, position unavailable, timeout, unsupported, unknown); it
  stores the Chennai anchor as the user location, never null, and emits one toast,
  an error toast. The toast and the error message tell the five outcomes apart:
  two failed acquisitions give the same toast, and the same message, exactly when
  they have the same outcome.
\<close>

theorem getCurrentLocation_failure:
  assumes "outcome_of geo \<noteq> measured"
  shows "userLocation (getCurrentLocation toFixed4 geo s) = Some chennai \<and>
     (\<exists>msg. toasts (getCurrentLocation toFixed4 geo s) = toasts s @ [ToastError msg]) \<and>
     outcome_of geo \<in> {permission_denied, position_unavailable, timeout, unsupported, unknown} \<and>
     (\<forall>geo'. outcome_of geo' \<noteq> measured \<longrightarrow>
        (toasts (getCurrentLocation toFixed4 geo' s) = toasts (getCurrentLocation toFixed4 geo s)
          \<longleftrightarrow> outcome_of geo' = outcome_of geo) \<and>
        (error (getCurrentLocation toFixed4 geo' s) = error (getCurrentLocation toFixed4 geo s)
          \<longleftrightarrow> outcome_of geo' = outcome_of geo))"
  using assms
  by (cases geo)
     (auto simp: getCurrentLocation_def outcome_of_def chennai_def switch_code_def Let_def
       split: geo_result.splits if_splits)

theorem getCurrentLocation_failure_witness:
  "outcome_of (PositionError 3) \<noteq> measured \<and>
   outcome_of (PositionError 3) = timeout \<and>
   userLocation (getCurrentLocation plain_toFixed (PositionError 3) initial) =
     Some \<lparr> lat = 13.0827, lng = 80.2707 \<rparr> \<and>
   toasts (getCurrentLocation plain_toFixed (PositionError 3) initial) =
     [ToastError ''Location timeout. Using Chennai as default.''] \<and>
   outcome_of Unsupported \<noteq> measured \<and>
   toasts (getCurrentLocation plain_toFixed Unsupported initial) \<noteq>
     toasts (getCurrentLocation plain_toFixed (PositionError 3) initial) \<and>
   toasts (getCurrentLocation plain_toFixed (PositionError 7) initial) =
     toasts (getCurrentLocation plain_toFixed (PositionError 0) initial)"
proof -
  have m: "outcome_of (PositionError 3) \<noteq> measured" "outcome_of Unsupported \<noteq> measured"
    "outcome_of (PositionError 7) \<noteq> measured" "outcome_of (PositionError 0) \<noteq> measured"
    by (simp_all add: outcome_of_def)
  have o: "outcome_of (PositionError 3) = timeout" "outcome_of Unsupported \<noteq> outcome_of (PositionError 3)"
    "outcome_of (PositionError 7) = outcome_of (PositionError 0)"
    by (simp_all add: outcome_of_def)
  note t = getCurrentLocation_failure [OF m(1), of plain_toFixed initial]
  from t have 1: "userLocation (getCurrentLocation plain_toFixed (PositionError 3) initial) =
     Some \<lparr> lat = 13.0827, lng = 80.2707 \<rparr>" by (simp add: chennai_def)
  from t obtain msg where
    "toasts (getCurrentLocation plain_toFixed (PositionError 3) initial) = toasts initial @ [ToastError msg]"
    by blast
  then have 2: "toasts (getCurrentLocation plain_toFixed (PositionError 3) initial) =
     [ToastError ''Location timeout. Using Chennai as default.'']"
    by (simp add: getCurrentLocation_def switch_code_def initial_def Let_def)
  from t m(2) o(2) have 3: "toasts (getCurrentLocation plain_toFixed Unsupported initial) \<noteq>
     toasts (getCurrentLocation plain_toFixed (PositionError 3) initial)" by blast
  from getCurrentLocation_failure [OF m(4), of plain_toFixed initial] m(3) o(3)
  have 4: "toasts (getCurrentLocation plain_toFixed (PositionError 7) initial) =
     toasts (getCurrentLocation plain_toFixed (PositionError 0) initial)" by blast
  from m(1) o(1) 1 2 m(2) 3 4 show ?thesis by (intro conjI)
qed

section \<open>Properties of the boundary store\<close>

lemma feature_collection_valid: "feature_collection d \<Longrightarrow> valid_geojson tn d"
proof (cases d)
  case (JObj kvs)
  assume "feature_collection d"
  with JObj have t: "map_of kvs ''type'' = Some (JStr ''FeatureCollection'')"
    and n: "nonempty_array (member (JObj kvs) ''features'')" by simp_all
  from n obtain fs where fs: "member (JObj kvs) ''features'' = JArr fs" "fs \<noteq> []"
    by (cases "member (JObj kvs) ''features''") simp_all
  show ?thesis using JObj t fs by (simp add: valid_geojson_def)
qed simp_all

lemma valid_geojson_parts:
  "valid_geojson tn d \<longleftrightarrow>
     truthy d \<and> member d ''type'' = JStr ''FeatureCollection'' \<and> truthy (member d ''features'') \<and>
     gt_zero tn (member (member d ''features'') ''length'')"
  by (simp add: valid_geojson_def)

lemma boundary_valid_iff:
  "boundary_valid tn fetched \<longleftrightarrow>
     (\<exists>r d. fetched = Inr r \<and> response_ok r \<and> body r = Some d \<and> valid_geojson tn d)"
  by (cases fetched) (auto simp: boundary_valid_def split: option.splits)

lemma fetch_valid:
  assumes "response_ok r" "body r = Some d" "valid_geojson tn d"
  shows "fetchEezBoundary tn (Inr r) s = Inr (s\<lparr> eezBoundary := Some d,
       console := console s @ [ConsoleLog ''Indian EEZ boundary loaded successfully''] \<rparr>)"
  using assms by (simp add: fetchEezBoundary_def fetch_try_def)

lemma fetch_transport_error:
  "fetchEezBoundary tn (Inl msg) s = Inr (s\<lparr> console := console s @
       [ConsoleError ''Error fetching Indian EEZ boundary:'' (Some (FetchFailed msg))],
     eezBoundary := None \<rparr>)"
  by (simp add: fetchEezBoundary_def fetch_try_def fetch_catch_def)

lemma fetch_http_error:
  assumes "\<not> response_ok r"
  shows "fetchEezBoundary tn (Inr r) s = Inr (s\<lparr> console := console s @
       [ConsoleError ''Error fetching Indian EEZ boundary:'' (Some (HttpError (status r)))],
     eezBoundary := None \<rparr>)"
  using assms by (simp add: fetchEezBoundary_def fetch_try_def fetch_catch_def)

lemma fetch_malformed_body:
  assumes "response_ok r" "body r = None"
  shows "fetchEezBoundary tn (Inr r) s = Inr (s\<lparr> console := console s @
       [ConsoleError ''Error fetching Indian EEZ boundary:'' (Some JsonParseError)],
     eezBoundary := None \<rparr>)"
  using assms by (simp add: fetchEezBoundary_def fetch_try_def fetch_catch_def)

lemma fetch_invalid_body:
  assumes "response_ok r" "body r = Some d" "\<not> valid_geojson tn d"
  shows "fetchEezBoundary tn (Inr r) s = Inr (s\<lparr> console := console s @
       [ConsoleError ''Error fetching Indian EEZ boundary:'' (Some InvalidBoundaryData)],
     eezBoundary := None \<rparr>)"
  using assms by (simp add: fetchEezBoundary_def fetch_try_def fetch_catch_def)

lemma empty_features_invalid: "member d ''features'' = JArr [] \<Longrightarrow> \<not> valid_geojson tn d"
  by (simp add: valid_geojson_def)

lemma wrong_type_invalid: "member d ''type'' \<noteq> JStr ''FeatureCollection'' \<Longrightarrow> \<not> valid_geojson tn d"
  by (simp add: valid_geojson_def)

text \<open>
  The lemmas above are what the source does on each outcome. A transport error, a
  status outside 2xx, a body that is not JSON and a body that fails the test of
  line 93 (among them a wrong \<^verbatim>\<open>type\<close> and an empty \<^verbatim>\<open>features\<close> array) each return
  normally, store \<^verbatim>\<open>null\<close> and append one console error that carries that very
  cause; every feature collection with at least one feature passes the test and is
  stored.
\<close>

text \<open>
  C7. Line 92 announces a validation of the GeoJSON data, and the test of line 93
  reads the \<^verbatim>\<open>type\<close>, the truthiness of \<^verbatim>\<open>features\<close> and the \<^verbatim>\<open>length\<close> of
  \<^verbatim>\<open>features\<close>, and nothing else of it. The body
  \<^verbatim>\<open>{"type": "FeatureCollection", "features": "x"}\<close>, answered with status 200, is no
  feature collection with at least one feature: its \<^verbatim>\<open>features\<close> member is a string.
  The source accepts it all the same: it is stored as the boundary and the success
  is logged, whatever the conversion \<open>to_number\<close> (the \<^verbatim>\<open>length\<close> of a string is a
  number, and is compared as it is).
\<close>

theorem stringly_body_accepted:
  "\<not> feature_collection stringly_body \<and>
   fetchEezBoundary to_number (Inr \<lparr> status = 200, body = Some stringly_body \<rparr>) initial =
     Inr (initial\<lparr> eezBoundary := Some stringly_body,
       console := [ConsoleLog ''Indian EEZ boundary loaded successfully''] \<rparr>)"
  by (simp add: stringly_body_def fetchEezBoundary_def fetch_try_def response_ok_def
      valid_geojson_def initial_def)

section \<open>Properties of the readiness gate\<close>












section \<open>Properties of the search\<close>

lemma forEach_place_effect:
  "allPOIs (forEach_place loc i ty j rs r) = allPOIs r @ pois_from loc i ty j rs \<and>
   searchesCompleted (forEach_place loc i ty j rs r) = searchesCompleted r \<and>
   setFishingPOIs_calls (forEach_place loc i ty j rs r) = setFishingPOIs_calls r"
  by (induction rs arbitrary: j r) (simp_all split: option.splits)

lemma length_searches: "length searches = 7"
  by (simp add: searches_def)

lemma query_ends_effect:
  assumes "fst ev < length searches"
  shows "searchesCompleted (query_ends loc ev r) = Suc (searchesCompleted r) \<and>
     allPOIs (query_ends loc ev r) =
       (if Suc (searchesCompleted r) = length searches
        then sort_key distance (allPOIs r @ event_pois loc ev)
        else allPOIs r @ event_pois loc ev) \<and>
     setFishingPOIs_calls (query_ends loc ev r) =
       (if Suc (searchesCompleted r) = length searches
        then setFishingPOIs_calls r @ [sort_key distance (allPOIs r @ event_pois loc ev)]
        else setFishingPOIs_calls r)"
proof (cases "snd ev")
  case Thrown
  then show ?thesis using assms
    by (simp add: query_ends_def nearbySearch_catch_def finish_def event_pois_def)
next
  case (Callback st results)
  then show ?thesis using assms
    by (simp add: query_ends_def nearbySearch_callback_def finish_def event_pois_def
        forEach_place_effect Let_def)
qed

lemma run_snoc:
  "searchNearbyFishingPlaces loc (evs @ [ev]) = query_ends loc ev (searchNearbyFishingPlaces loc evs)"
  by (simp add: searchNearbyFishingPlaces_def)

lemma discovered_snoc: "discovered loc (evs @ [ev]) = discovered loc evs @ event_pois loc ev"
  by (simp add: discovered_def)

lemma run_prefix:
  assumes "\<forall>ev \<in> set evs. fst ev < length searches" and "length evs < length searches"
  shows "searchesCompleted (searchNearbyFishingPlaces loc evs) = length evs \<and>
     allPOIs (searchNearbyFishingPlaces loc evs) = discovered loc evs \<and>
     setFishingPOIs_calls (searchNearbyFishingPlaces loc evs) = []"
  using assms
proof (induction evs rule: rev_induct)
  case Nil
  then show ?case by (simp add: searchNearbyFishingPlaces_def new_run_def discovered_def)
next
  case (snoc ev evs)
  then have ih: "searchesCompleted (searchNearbyFishingPlaces loc evs) = length evs"
    "allPOIs (searchNearbyFishingPlaces loc evs) = discovered loc evs"
    "setFishingPOIs_calls (searchNearbyFishingPlaces loc evs) = []"
    by simp_all
  have "fst ev < length searches" using snoc.prems by simp
  from query_ends_effect[OF this, of loc "searchNearbyFishingPlaces loc evs"] ih snoc.prems(2)
  show ?case by (simp add: run_snoc discovered_snoc)
qed

lemma run_full:
  assumes "\<forall>ev \<in> set evs. fst ev < length searches" and "length evs = length searches"
  shows "searchesCompleted (searchNearbyFishingPlaces loc evs) = length searches \<and>
     allPOIs (searchNearbyFishingPlaces loc evs) = sort_key distance (discovered loc evs) \<and>
     setFishingPOIs_calls (searchNearbyFishingPlaces loc evs) =
       [sort_key distance (discovered loc evs)]"
proof -
  from assms(2) have "evs \<noteq> []" by (auto simp: length_searches)
  then obtain es e where evs: "evs = es @ [e]" by (metis rev_exhaust)
  have p: "\<forall>ev \<in> set es. fst ev < length searches" "length es < length searches"
    "fst e < length searches" "Suc (length es) = length searches"
    using assms evs by simp_all
  from run_prefix[OF p(1,2), of loc] query_ends_effect[OF p(3), of loc "searchNearbyFishingPlaces loc es"] p(4)
  show ?thesis unfolding evs by (simp add: run_snoc discovered_snoc)
qed

lemma one_per_category_facts:
  assumes "one_per_category evs"
  shows "length evs = length searches" and "\<forall>ev \<in> set evs. fst ev < length searches"
    and "distinct (map fst evs)"
proof -
  from assms have d: "distinct (map fst evs)" and s: "set (map fst evs) = {0..<length searches}"
    by (simp_all add: one_per_category_def)
  show "distinct (map fst evs)" by (rule d)
  have "card (set (map fst evs)) = length (map fst evs)" by (rule distinct_card[OF d])
  then show "length evs = length searches" unfolding s by simp
  show "\<forall>ev \<in> set evs. fst ev < length searches"
  proof
    fix ev assume "ev \<in> set evs"
    then have "fst ev \<in> set (map fst evs)" by simp
    then show "fst ev < length searches" using s by simp
  qed
qed

lemma pois_from_members:
  "p \<in> set (pois_from loc i ty j rs) \<Longrightarrow>
     \<exists>m l. m < length rs \<and> pl_geometry (rs ! m) = Some l \<and> p = make_poi loc i ty (j + m) (rs ! m) l"
proof (induction rs arbitrary: j)
  case Nil
  then show ?case by simp
next
  case (Cons r rs)
  show ?case
  proof (cases "p \<in> set (pois_from loc i ty (Suc j) rs)")
    case True
    from Cons.IH[OF True] obtain m l where "m < length rs" "pl_geometry (rs ! m) = Some l"
      "p = make_poi loc i ty (Suc j + m) (rs ! m) l" by blast
    then show ?thesis by (intro exI[of _ "Suc m"] exI[of _ l]) simp
  next
    case False
    show ?thesis
    proof (cases "pl_geometry r")
      case None
      with Cons.prems False show ?thesis by simp
    next
      case (Some l)
      with Cons.prems False have "p = make_poi loc i ty j r l" by simp
      with Some show ?thesis by (intro exI[of _ 0] exI[of _ l]) simp
    qed
  qed
qed

lemma event_pois_members:
  assumes "p \<in> set (event_pois loc ev)"
  shows "\<exists>rs j l. snd ev = Callback OK (Some rs) \<and> j < 3 \<and> j < length rs \<and>
     pl_geometry (rs ! j) = Some l \<and>
     p = make_poi loc (fst ev) (snd (searches ! fst ev)) j (rs ! j) l"
proof (cases "snd ev")
  case Thrown
  with assms show ?thesis by (simp add: event_pois_def)
next
  case (Callback st results)
  with assms have st: "st = OK" and r: "results \<noteq> None"
    by (auto simp: event_pois_def split: if_splits)
  then obtain rs where rs: "results = Some rs" by auto
  with assms Callback st have "p \<in> set (pois_from loc (fst ev) (snd (searches ! fst ev)) 0 (take 3 rs))"
    by (simp add: event_pois_def)
  from pois_from_members[OF this] obtain m l where
    m: "m < length (take 3 rs)" "pl_geometry (take 3 rs ! m) = Some l"
    "p = make_poi loc (fst ev) (snd (searches ! fst ev)) (0 + m) (take 3 rs ! m) l" by blast
  then have "m < 3" "m < length rs" "take 3 rs ! m = rs ! m" by simp_all
  with m Callback st rs show ?thesis by (intro exI[of _ rs] exI[of _ m] exI[of _ l]) simp
qed

lemma discovered_members:
  "p \<in> set (discovered loc evs) \<Longrightarrow> \<exists>ev \<in> set evs. p \<in> set (event_pois loc ev)"
  by (auto simp: discovered_def)

lemma make_poi_id [simp]: "poi_id (make_poi loc i ty j place l) = i * 10 + j"
  by (simp add: make_poi_def)

lemma event_pois_id_div:
  assumes "p \<in> set (event_pois loc ev)"
  shows "poi_id p div 10 = fst ev"
proof -
  from event_pois_members[OF assms] obtain rs j l where "j < 3"
    "p = make_poi loc (fst ev) (snd (searches ! fst ev)) j (rs ! j) l" by blast
  then show ?thesis by simp
qed

lemma pois_from_lower:
  "p \<in> set (pois_from loc i ty j rs) \<Longrightarrow> i * 10 + j \<le> poi_id p"
  by (drule pois_from_members) auto

lemma pois_from_distinct: "distinct (map poi_id (pois_from loc i ty j rs))"
proof (induction rs arbitrary: j)
  case Nil
  then show ?case by simp
next
  case (Cons r rs)
  have "i * 10 + j \<notin> poi_id ` set (pois_from loc i ty (Suc j) rs)"
    using pois_from_lower[of _ loc i ty "Suc j" rs] by fastforce
  with Cons.IH[of "Suc j"] show ?case by (simp split: option.splits)
qed

lemma event_pois_distinct: "distinct (map poi_id (event_pois loc ev))"
  by (simp add: event_pois_def pois_from_distinct split: search_outcome.splits)

lemma discovered_Cons: "discovered loc (ev # evs) = event_pois loc ev @ discovered loc evs"
  by (simp add: discovered_def)

lemma discovered_id_div:
  "p \<in> set (discovered loc evs) \<Longrightarrow> poi_id p div 10 \<in> fst ` set evs"
  using discovered_members event_pois_id_div by blast

lemma discovered_distinct:
  "distinct (map fst evs) \<Longrightarrow> distinct (map poi_id (discovered loc evs))"
proof (induction evs)
  case Nil
  then show ?case by (simp add: discovered_def)
next
  case (Cons ev evs)
  have "poi_id ` set (event_pois loc ev) \<inter> poi_id ` set (discovered loc evs) = {}"
  proof (rule ccontr)
    assume "poi_id ` set (event_pois loc ev) \<inter> poi_id ` set (discovered loc evs) \<noteq> {}"
    then obtain p q where pq: "p \<in> set (event_pois loc ev)" "q \<in> set (discovered loc evs)"
      "poi_id p = poi_id q" by auto
    from event_pois_id_div[OF pq(1)] discovered_id_div[OF pq(2)] pq(3)
    have "fst ev \<in> fst ` set evs" by simp
    with Cons.prems show False by simp
  qed
  with Cons event_pois_distinct[of loc ev] show ?case by (simp add: discovered_Cons)
qed

lemma sort_key_distinct_ids:
  "distinct (map poi_id (sort_key distance xs)) = distinct (map poi_id xs)"
proof -
  have "mset (map poi_id (sort_key distance xs)) = mset (map poi_id xs)" by simp
  then show ?thesis by (rule mset_eq_imp_distinct_iff)
qed

lemma pois_from_filter:
  "filter (\<lambda>p. poi_id p = i * 10 + (j + m)) (pois_from loc i ty j rs) =
     (if m < length rs
      then (case pl_geometry (rs ! m) of None \<Rightarrow> []
            | Some l \<Rightarrow> [make_poi loc i ty (j + m) (rs ! m) l])
      else [])"
proof (induction rs arbitrary: j m)
  case Nil
  then show ?case by simp
next
  case (Cons r rs)
  show ?case
  proof (cases m)
    case 0
    have "filter (\<lambda>p. poi_id p = i * 10 + j) (pois_from loc i ty (Suc j) rs) = []"
      using pois_from_lower[of _ loc i ty "Suc j" rs] by (fastforce simp: filter_empty_conv)
    with 0 show ?thesis by (simp split: option.splits)
  next
    case (Suc n)
    from Cons.IH[of "Suc j" n] Suc show ?thesis by (simp split: option.splits)
  qed
qed

lemma event_pois_filter:
  assumes "snd ev = Callback OK (Some rs)" "j < min 3 (length rs)"
  shows "filter (\<lambda>p. poi_id p = fst ev * 10 + j) (event_pois loc ev) =
     (case pl_geometry (rs ! j) of None \<Rightarrow> []
      | Some l \<Rightarrow> [make_poi loc (fst ev) (snd (searches ! fst ev)) j (rs ! j) l])"
  using assms pois_from_filter[of "fst ev" 0 j loc "snd (searches ! fst ev)" "take 3 rs"]
  by (simp add: event_pois_def split: option.splits)

lemma discovered_filter_event:
  assumes "distinct (map fst evs)" "ev \<in> set evs"
  shows "filter (\<lambda>p. poi_id p div 10 = fst ev) (discovered loc evs) = event_pois loc ev"
  using assms
proof (induction evs)
  case Nil
  then show ?case by simp
next
  case (Cons e evs)
  show ?case
  proof (cases "e = ev")
    case True
    have n: "fst ev \<notin> fst ` set evs" using Cons.prems(1) True by simp
    have "\<forall>p \<in> set (discovered loc evs). poi_id p div 10 \<noteq> fst ev"
    proof
      fix p assume "p \<in> set (discovered loc evs)"
      from discovered_id_div[OF this] have "poi_id p div 10 \<in> fst ` set evs" .
      with n show "poi_id p div 10 \<noteq> fst ev" by metis
    qed
    then have "filter (\<lambda>p. poi_id p div 10 = fst ev) (discovered loc evs) = []"
      by (simp add: filter_empty_conv)
    moreover have "filter (\<lambda>p. poi_id p div 10 = fst ev) (event_pois loc ev) = event_pois loc ev"
      using event_pois_id_div[of _ loc ev] by (simp add: filter_id_conv)
    ultimately show ?thesis using True by (simp add: discovered_Cons)
  next
    case False
    with Cons.prems have in_evs: "ev \<in> set evs" by simp
    then have "fst e \<noteq> fst ev" using Cons.prems(1) by force
    then have "\<forall>p \<in> set (event_pois loc e). poi_id p div 10 \<noteq> fst ev"
      using event_pois_id_div[of _ loc e] by simp
    then have "filter (\<lambda>p. poi_id p div 10 = fst ev) (event_pois loc e) = []"
      by (simp add: filter_empty_conv)
    with Cons.IH in_evs Cons.prems(1) show ?thesis by (simp add: discovered_Cons)
  qed
qed

lemma discovered_filter_id:
  assumes "distinct (map fst evs)" "ev \<in> set evs" "j < 10"
  shows "filter (\<lambda>p. poi_id p = fst ev * 10 + j) (discovered loc evs) =
     filter (\<lambda>p. poi_id p = fst ev * 10 + j) (event_pois loc ev)"
proof -
  have "filter (\<lambda>p. poi_id p = fst ev * 10 + j) (discovered loc evs) =
     filter (\<lambda>p. poi_id p = fst ev * 10 + j)
       (filter (\<lambda>p. poi_id p div 10 = fst ev) (discovered loc evs))"
    using assms(3) by (auto intro!: filter_cong)
  then show ?thesis using discovered_filter_event[OF assms(1,2)] by simp
qed

lemma run_take:
  assumes "one_per_category evs" "k \<le> length searches"
  shows "searchesCompleted (searchNearbyFishingPlaces loc (take k evs)) = k \<and>
     setFishingPOIs_calls (searchNearbyFishingPlaces loc (take k evs)) =
       (if k = length searches then [sort_key distance (discovered loc evs)] else []) \<and>
     allPOIs (searchNearbyFishingPlaces loc (take k evs)) =
       (if k = length searches then sort_key distance (discovered loc evs)
        else discovered loc (take k evs))"
proof -
  note f = one_per_category_facts[OF assms(1)]
  have r: "\<forall>ev \<in> set (take k evs). fst ev < length searches"
    using f(2) by (meson in_set_takeD)
  show ?thesis
  proof (cases "k = length searches")
    case True
    then have "take k evs = evs" using f(1) by simp
    with True run_full[OF f(2) f(1), of loc] show ?thesis by simp
  next
    case False
    then have "length (take k evs) < length searches" "length (take k evs) = k"
      using assms(2) f(1) by simp_all
    with False run_prefix[OF r, of loc] show ?thesis by simp
  qed
qed

lemma final_members:
  assumes "one_per_category evs" "p \<in> set (allPOIs (searchNearbyFishingPlaces loc evs))"
  shows "\<exists>ev \<in> set evs. \<exists>rs j l. snd ev = Callback OK (Some rs) \<and> j < 3 \<and> j < length rs \<and>
     pl_geometry (rs ! j) = Some l \<and>
     p = make_poi loc (fst ev) (snd (searches ! fst ev)) j (rs ! j) l"
proof -
  note f = one_per_category_facts[OF assms(1)]
  from assms(2) run_full[OF f(2) f(1), of loc] have "p \<in> set (discovered loc evs)" by simp
  from discovered_members[OF this] obtain ev where ev: "ev \<in> set evs" "p \<in> set (event_pois loc ev)"
    by blast
  from event_pois_members[OF ev(2)] ev(1) show ?thesis by blast
qed

text \<open>
  C2. In a run with one query for each of the seven categories, whatever each query
  does (results, a status other than OK, or a throw) and in whatever order they end:
  after \<open>k\<close> queries have ended the counter is \<open>k\<close>, and \<^verbatim>\<open>setFishingPOIs\<close> has been called
  once if \<open>k\<close> is the number of categories and not at all before; what is published
  is the final \<^verbatim>\<open>allPOIs\<close>; and a category whose query did not call back with OK and
  results has no entry in it.
\<close>

theorem completion_tally:
  assumes "one_per_category evs"
  shows "(\<forall>k \<le> length searches.
        searchesCompleted (searchNearbyFishingPlaces location (take k evs)) = k \<and>
        length (setFishingPOIs_calls (searchNearbyFishingPlaces location (take k evs))) =
          (if k = length searches then 1 else 0)) \<and>
     setFishingPOIs_calls (searchNearbyFishingPlaces location evs) =
       [allPOIs (searchNearbyFishingPlaces location evs)] \<and>
     (\<forall>ev \<in> set evs. (\<forall>rs. snd ev \<noteq> Callback OK (Some rs)) \<longrightarrow>
        (\<forall>p \<in> set (allPOIs (searchNearbyFishingPlaces location evs)). poi_id p div 10 \<noteq> fst ev))"
proof (intro conjI allI impI ballI)
  fix k assume k: "k \<le> length searches"
  from run_take[OF assms k, of location]
  show "searchesCompleted (searchNearbyFishingPlaces location (take k evs)) = k" by simp
  from run_take[OF assms k, of location]
  show "length (setFishingPOIs_calls (searchNearbyFishingPlaces location (take k evs))) =
          (if k = length searches then 1 else 0)" by simp
next
  note f = one_per_category_facts[OF assms]
  from run_full[OF f(2) f(1), of location]
  show "setFishingPOIs_calls (searchNearbyFishingPlaces location evs) =
       [allPOIs (searchNearbyFishingPlaces location evs)]" by simp
next
  fix ev p
  assume ev: "ev \<in> set evs" and n: "\<forall>rs. snd ev \<noteq> Callback OK (Some rs)"
    and p: "p \<in> set (allPOIs (searchNearbyFishingPlaces location evs))"
  note f = one_per_category_facts[OF assms]
  from final_members[OF assms p] obtain e rs j l where e: "e \<in> set evs"
    "snd e = Callback OK (Some rs)" "j < 3"
    "p = make_poi location (fst e) (snd (searches ! fst e)) j (rs ! j) l" by blast
  from e(3,4) have d: "poi_id p div 10 = fst e" by simp
  from e(2) n have "e \<noteq> ev" by auto
  with e(1) ev f(3) have "fst e \<noteq> fst ev" by (metis distinct_map inj_onD)
  with d show "poi_id p div 10 \<noteq> fst ev" by simp
qed

lemma seven_queries_one_per_category: "one_per_category seven_queries"
  by (auto simp: one_per_category_def seven_queries_def length_searches)

lemma seven_queries_ids:
  "map poi_id (discovered loc seven_queries) = [0, 1, 10, 11, 20, 21, 40, 41, 50, 51, 60, 61]"
  by (simp add: discovered_def event_pois_def seven_queries_def two_results_def place_at_def)

theorem completion_tally_witness:
  "one_per_category seven_queries \<and>
   searchesCompleted (searchNearbyFishingPlaces chennai seven_queries) = 7 \<and>
   searchesCompleted (searchNearbyFishingPlaces chennai (take 4 seven_queries)) = 4 \<and>
   setFishingPOIs_calls (searchNearbyFishingPlaces chennai (take 6 seven_queries)) = [] \<and>
   setFishingPOIs_calls (searchNearbyFishingPlaces chennai seven_queries) =
     [allPOIs (searchNearbyFishingPlaces chennai seven_queries)] \<and>
   length (allPOIs (searchNearbyFishingPlaces chennai seven_queries)) = 12 \<and>
   set (map poi_id (allPOIs (searchNearbyFishingPlaces chennai seven_queries))) =
     {0, 1, 10, 11, 20, 21, 40, 41, 50, 51, 60, 61} \<and>
   3 \<notin> (\<lambda>p. poi_id p div 10) ` set (allPOIs (searchNearbyFishingPlaces chennai seven_queries))"
proof -
  note h = seven_queries_one_per_category
  note t = completion_tally [OF h, of chennai]
  note f = one_per_category_facts[OF h]
  have a: "allPOIs (searchNearbyFishingPlaces chennai seven_queries) =
      sort_key distance (discovered chennai seven_queries)"
    using run_full[OF f(2) f(1), of chennai] by simp
  have l: "length (allPOIs (searchNearbyFishingPlaces chennai seven_queries)) = 12"
    unfolding a length_sort using arg_cong[OF seven_queries_ids[of chennai], of length] by simp
  have s: "set (map poi_id (allPOIs (searchNearbyFishingPlaces chennai seven_queries))) =
     {0, 1, 10, 11, 20, 21, 40, 41, 50, 51, 60, 61}"
    unfolding a set_map set_sort using arg_cong[OF seven_queries_ids[of chennai], of set]
    by simp
  have w: "take 7 seven_queries = seven_queries" by (simp add: seven_queries_def)
  from t have k: "\<forall>k \<le> length searches.
        searchesCompleted (searchNearbyFishingPlaces chennai (take k seven_queries)) = k \<and>
        length (setFishingPOIs_calls (searchNearbyFishingPlaces chennai (take k seven_queries))) =
          (if k = length searches then 1 else 0)"
    and c: "setFishingPOIs_calls (searchNearbyFishingPlaces chennai seven_queries) =
       [allPOIs (searchNearbyFishingPlaces chennai seven_queries)]"
    and n: "\<forall>ev \<in> set seven_queries. (\<forall>rs. snd ev \<noteq> Callback OK (Some rs)) \<longrightarrow>
        (\<forall>p \<in> set (allPOIs (searchNearbyFishingPlaces chennai seven_queries)).
           poi_id p div 10 \<noteq> fst ev)" by simp_all
  from k[rule_format, of 7] w
  have k7: "searchesCompleted (searchNearbyFishingPlaces chennai seven_queries) = 7"
    by (simp add: length_searches)
  from k[rule_format, of 4]
  have k4: "searchesCompleted (searchNearbyFishingPlaces chennai (take 4 seven_queries)) = 4"
    by (simp add: length_searches)
  from k[rule_format, of 6]
  have k6: "setFishingPOIs_calls (searchNearbyFishingPlaces chennai (take 6 seven_queries)) = []"
    by (simp add: length_searches)
  have "(3, Thrown) \<in> set seven_queries" by (simp add: seven_queries_def)
  from n[rule_format, OF this]
  have "\<forall>p \<in> set (allPOIs (searchNearbyFishingPlaces chennai seven_queries)). poi_id p div 10 \<noteq> 3"
    by simp
  then have n3: "3 \<notin> (\<lambda>p. poi_id p div 10) `
      set (allPOIs (searchNearbyFishingPlaces chennai seven_queries))" by auto
  from h k7 k4 k6 c l s n3 show ?thesis by (intro conjI)
qed

lemma UserLocation_eta: "\<lparr> lat = lat l, lng = lng l \<rparr> = l"
  by (cases l) simp

lemma make_poi_distance [simp]:
  "distance (make_poi loc i ty j place l) = calculateDistance loc l"
  by (simp add: make_poi_def UserLocation_eta)

text \<open>
  C3. In a run with one query for each category, every entry of the final
  sequence comes from one of the first three results of a category that called
  back with OK, and its id is ten times the category index plus the position of
  that result, its distance the \<^verbatim>\<open>calculateDistance\<close> from the origin to the place;
  the ids are distinct; the sequence that is published is sorted by ascending
  distance; and entries of equal distance keep the order in which they were
  pushed, which is the order \<open>discovered\<close> that \<^verbatim>\<open>allPOIs\<close> holds before the sort.
\<close>

theorem ranked_ids_and_order:
  assumes "one_per_category evs"
  shows "setFishingPOIs_calls (searchNearbyFishingPlaces location evs) =
       [allPOIs (searchNearbyFishingPlaces location evs)] \<and>
     (\<forall>p \<in> set (allPOIs (searchNearbyFishingPlaces location evs)).
        \<exists>ev \<in> set evs. \<exists>rs j l. snd ev = Callback OK (Some rs) \<and> j < 3 \<and> j < length rs \<and>
          pl_geometry (rs ! j) = Some l \<and> poi_id p = fst ev * 10 + j \<and>
          distance p = calculateDistance location l) \<and>
     distinct (map poi_id (allPOIs (searchNearbyFishingPlaces location evs))) \<and>
     sorted (map distance (allPOIs (searchNearbyFishingPlaces location evs))) \<and>
     (\<forall>k < length searches.
        allPOIs (searchNearbyFishingPlaces location (take k evs)) =
          discovered location (take k evs)) \<and>
     (\<forall>d. filter (\<lambda>p. distance p = d) (allPOIs (searchNearbyFishingPlaces location evs)) =
          filter (\<lambda>p. distance p = d) (discovered location evs))"
proof -
  note f = one_per_category_facts[OF assms]
  note r = run_full[OF f(2) f(1), of location]
  have 1: "setFishingPOIs_calls (searchNearbyFishingPlaces location evs) =
       [allPOIs (searchNearbyFishingPlaces location evs)]" using r by simp
  have 2: "\<forall>p \<in> set (allPOIs (searchNearbyFishingPlaces location evs)).
        \<exists>ev \<in> set evs. \<exists>rs j l. snd ev = Callback OK (Some rs) \<and> j < 3 \<and> j < length rs \<and>
          pl_geometry (rs ! j) = Some l \<and> poi_id p = fst ev * 10 + j \<and>
          distance p = calculateDistance location l"
  proof
    fix p assume "p \<in> set (allPOIs (searchNearbyFishingPlaces location evs))"
    from final_members[OF assms this] obtain ev rs j l where
      e: "ev \<in> set evs" "snd ev = Callback OK (Some rs)" "j < 3" "j < length rs"
      "pl_geometry (rs ! j) = Some l"
      "p = make_poi location (fst ev) (snd (searches ! fst ev)) j (rs ! j) l" by blast
    from e(6) have "poi_id p = fst ev * 10 + j" "distance p = calculateDistance location l"
      by simp_all
    with e(1-5) show "\<exists>ev \<in> set evs. \<exists>rs j l. snd ev = Callback OK (Some rs) \<and> j < 3 \<and>
          j < length rs \<and> pl_geometry (rs ! j) = Some l \<and> poi_id p = fst ev * 10 + j \<and>
          distance p = calculateDistance location l" by blast
  qed
  have 3: "distinct (map poi_id (allPOIs (searchNearbyFishingPlaces location evs)))"
    using r discovered_distinct[OF f(3), of location] by (simp add: sort_key_distinct_ids)
  have 4: "sorted (map distance (allPOIs (searchNearbyFishingPlaces location evs)))"
    using r by simp
  have 5: "\<forall>k < length searches.
        allPOIs (searchNearbyFishingPlaces location (take k evs)) =
          discovered location (take k evs)"
  proof (intro allI impI)
    fix k assume "k < length searches"
    then show "allPOIs (searchNearbyFishingPlaces location (take k evs)) =
          discovered location (take k evs)"
      using run_take[OF assms, of k location] by simp
  qed
  have 6: "\<forall>d. filter (\<lambda>p. distance p = d) (allPOIs (searchNearbyFishingPlaces location evs)) =
          filter (\<lambda>p. distance p = d) (discovered location evs)"
    using r by (simp add: sort_key_stable)
  from 1 2 3 4 5 6 show ?thesis by (intro conjI)
qed

theorem ranked_ids_and_order_witness:
  "one_per_category seven_queries \<and>
   distinct (map poi_id (allPOIs (searchNearbyFishingPlaces chennai seven_queries))) \<and>
   sorted (map distance (allPOIs (searchNearbyFishingPlaces chennai seven_queries))) \<and>
   setFishingPOIs_calls (searchNearbyFishingPlaces chennai seven_queries) =
     [allPOIs (searchNearbyFishingPlaces chennai seven_queries)] \<and>
   map poi_id (allPOIs (searchNearbyFishingPlaces chennai (take 3 seven_queries))) =
     [0, 1, 10, 11, 20, 21]"
proof -
  note h = seven_queries_one_per_category
  note t = ranked_ids_and_order [OF h, of chennai]
  from t have 1: "setFishingPOIs_calls (searchNearbyFishingPlaces chennai seven_queries) =
     [allPOIs (searchNearbyFishingPlaces chennai seven_queries)]"
    and 3: "distinct (map poi_id (allPOIs (searchNearbyFishingPlaces chennai seven_queries)))"
    and 4: "sorted (map distance (allPOIs (searchNearbyFishingPlaces chennai seven_queries)))"
    and 5: "\<forall>k < length searches.
        allPOIs (searchNearbyFishingPlaces chennai (take k seven_queries)) =
          discovered chennai (take k seven_queries)"
    by simp_all
  from 5[rule_format, of 3]
  have "allPOIs (searchNearbyFishingPlaces chennai (take 3 seven_queries)) =
          discovered chennai (take 3 seven_queries)" by (simp add: length_searches)
  then have 6: "map poi_id (allPOIs (searchNearbyFishingPlaces chennai (take 3 seven_queries))) =
     [0, 1, 10, 11, 20, 21]"
    by (simp add: discovered_def event_pois_def seven_queries_def two_results_def place_at_def)
  from h 3 4 1 6 show ?thesis by (intro conjI)
qed

text \<open>
  C10. In a run with one query for each category, the final sequence holds the
  entries of \<open>discovered\<close>, each as often as there, and nothing else: for a category
  that called back with OK and for each position \<open>j\<close> among its first three results,
  the final sequence has exactly one entry with the id of that position when the
  result has a geometry, made from that result (its \<^verbatim>\<open>place_id\<close> included), and none
  when it has no geometry. No entry is dropped because another category found the
  same place, and a result without geometry leaves the ids of the others as they
  are.
\<close>

theorem no_deduplication:
  assumes "one_per_category evs"
  shows "mset (allPOIs (searchNearbyFishingPlaces location evs)) = mset (discovered location evs) \<and>
     (\<forall>ev \<in> set evs. \<forall>rs. snd ev = Callback OK (Some rs) \<longrightarrow>
        (\<forall>j < min 3 (length rs).
           filter (\<lambda>p. poi_id p = fst ev * 10 + j)
             (allPOIs (searchNearbyFishingPlaces location evs)) =
           (case pl_geometry (rs ! j) of
              None \<Rightarrow> []
            | Some l \<Rightarrow> [make_poi location (fst ev) (snd (searches ! fst ev)) j (rs ! j) l]))) \<and>
     (\<forall>p \<in> set (allPOIs (searchNearbyFishingPlaces location evs)).
        \<exists>ev \<in> set evs. \<exists>rs j l. snd ev = Callback OK (Some rs) \<and> j < min 3 (length rs) \<and>
          pl_geometry (rs ! j) = Some l \<and>
          p = make_poi location (fst ev) (snd (searches ! fst ev)) j (rs ! j) l \<and>
          place_id p = pl_place_id (rs ! j))"
proof -
  note f = one_per_category_facts[OF assms]
  note r = run_full[OF f(2) f(1), of location]
  have 1: "mset (allPOIs (searchNearbyFishingPlaces location evs)) = mset (discovered location evs)"
    using r by simp
  have 2: "\<forall>ev \<in> set evs. \<forall>rs. snd ev = Callback OK (Some rs) \<longrightarrow>
        (\<forall>j < min 3 (length rs).
           filter (\<lambda>p. poi_id p = fst ev * 10 + j)
             (allPOIs (searchNearbyFishingPlaces location evs)) =
           (case pl_geometry (rs ! j) of
              None \<Rightarrow> []
            | Some l \<Rightarrow> [make_poi location (fst ev) (snd (searches ! fst ev)) j (rs ! j) l]))"
  proof (intro ballI allI impI)
    fix ev rs j
    assume ev: "ev \<in> set evs" "snd ev = Callback OK (Some rs)" and j: "j < min 3 (length rs)"
    from j have j10: "j < 10" by simp
    have "filter (\<lambda>p. poi_id p = fst ev * 10 + j)
             (allPOIs (searchNearbyFishingPlaces location evs)) =
          sort_key distance (filter (\<lambda>p. poi_id p = fst ev * 10 + j) (discovered location evs))"
      using r by (simp add: filter_sort)
    also have "filter (\<lambda>p. poi_id p = fst ev * 10 + j) (discovered location evs) =
        (case pl_geometry (rs ! j) of
              None \<Rightarrow> []
            | Some l \<Rightarrow> [make_poi location (fst ev) (snd (searches ! fst ev)) j (rs ! j) l])"
      using discovered_filter_id[OF f(3) ev(1) j10, of location]
        event_pois_filter[OF ev(2) j, of location] by simp
    also have "sort_key distance (case pl_geometry (rs ! j) of
              None \<Rightarrow> []
            | Some l \<Rightarrow> [make_poi location (fst ev) (snd (searches ! fst ev)) j (rs ! j) l]) =
        (case pl_geometry (rs ! j) of
              None \<Rightarrow> []
            | Some l \<Rightarrow> [make_poi location (fst ev) (snd (searches ! fst ev)) j (rs ! j) l])"
      by (simp split: option.splits)
    finally show "filter (\<lambda>p. poi_id p = fst ev * 10 + j)
             (allPOIs (searchNearbyFishingPlaces location evs)) =
           (case pl_geometry (rs ! j) of
              None \<Rightarrow> []
            | Some l \<Rightarrow> [make_poi location (fst ev) (snd (searches ! fst ev)) j (rs ! j) l])" .
  qed
  have 3: "\<forall>p \<in> set (allPOIs (searchNearbyFishingPlaces location evs)).
        \<exists>ev \<in> set evs. \<exists>rs j l. snd ev = Callback OK (Some rs) \<and> j < min 3 (length rs) \<and>
          pl_geometry (rs ! j) = Some l \<and>
          p = make_poi location (fst ev) (snd (searches ! fst ev)) j (rs ! j) l \<and>
          place_id p = pl_place_id (rs ! j)"
  proof
    fix p assume "p \<in> set (allPOIs (searchNearbyFishingPlaces location evs))"
    from final_members[OF assms this] obtain ev rs j l where
      e: "ev \<in> set evs" "snd ev = Callback OK (Some rs)" "j < 3" "j < length rs"
      "pl_geometry (rs ! j) = Some l"
      "p = make_poi location (fst ev) (snd (searches ! fst ev)) j (rs ! j) l" by blast
    from e(6) have "place_id p = pl_place_id (rs ! j)" by (simp add: make_poi_def)
    moreover from e(3,4) have "j < min 3 (length rs)" by simp
    ultimately show "\<exists>ev \<in> set evs. \<exists>rs j l. snd ev = Callback OK (Some rs) \<and>
          j < min 3 (length rs) \<and> pl_geometry (rs ! j) = Some l \<and>
          p = make_poi location (fst ev) (snd (searches ! fst ev)) j (rs ! j) l \<and>
          place_id p = pl_place_id (rs ! j)"
      using e(1,2,5,6) by blast
  qed
  from 1 2 3 show ?thesis by (intro conjI)
qed

lemma shared_place_one_per_category: "one_per_category shared_place_queries"
  by (auto simp: one_per_category_def shared_place_queries_def length_searches)

theorem no_deduplication_witness:
  "one_per_category shared_place_queries \<and>
   mset (map poi_id (allPOIs (searchNearbyFishingPlaces chennai shared_place_queries))) =
     {#1, 40#} \<and>
   mset (map place_id (allPOIs (searchNearbyFishingPlaces chennai shared_place_queries))) =
     {#Some ''p'', Some ''p''#} \<and>
   mset (map poi_type (allPOIs (searchNearbyFishingPlaces chennai shared_place_queries))) =
     {#marina, port#} \<and>
   filter (\<lambda>p. poi_id p = 0) (allPOIs (searchNearbyFishingPlaces chennai shared_place_queries)) = [] \<and>
   map place_id (filter (\<lambda>p. poi_id p = 1)
     (allPOIs (searchNearbyFishingPlaces chennai shared_place_queries))) = [Some ''p''] \<and>
   map place_id (filter (\<lambda>p. poi_id p = 40)
     (allPOIs (searchNearbyFishingPlaces chennai shared_place_queries))) = [Some ''p'']"
proof -
  note h = shared_place_one_per_category
  let ?e0 = "(0, Callback OK (Some [place_without_geometry, place_at ''p'' 13.10 80.30]))
    :: nat \<times> search_outcome"
  let ?e4 = "(4, Callback OK (Some [place_at ''p'' 13.10 80.30])) :: nat \<times> search_outcome"
  have d: "discovered chennai shared_place_queries =
     [make_poi chennai 0 marina 1 (place_at ''p'' 13.10 80.30) \<lparr> lat = 13.10, lng = 80.30 \<rparr>,
      make_poi chennai 4 port 0 (place_at ''p'' 13.10 80.30) \<lparr> lat = 13.10, lng = 80.30 \<rparr>]"
    by (simp add: discovered_def event_pois_def shared_place_queries_def place_at_def
        place_without_geometry_def searches_def)
  note t = no_deduplication [OF h, of chennai]
  from t have m: "mset (allPOIs (searchNearbyFishingPlaces chennai shared_place_queries)) =
      mset (discovered chennai shared_place_queries)"
    and c: "\<forall>ev \<in> set shared_place_queries. \<forall>rs. snd ev = Callback OK (Some rs) \<longrightarrow>
        (\<forall>j < min 3 (length rs).
           filter (\<lambda>p. poi_id p = fst ev * 10 + j)
             (allPOIs (searchNearbyFishingPlaces chennai shared_place_queries)) =
           (case pl_geometry (rs ! j) of
              None \<Rightarrow> []
            | Some l \<Rightarrow> [make_poi chennai (fst ev) (snd (searches ! fst ev)) j (rs ! j) l]))"
    by simp_all
  have i: "mset (map poi_id (allPOIs (searchNearbyFishingPlaces chennai shared_place_queries))) =
     {#1, 40#}"
    unfolding mset_map m unfolding d by simp
  have p: "mset (map place_id (allPOIs (searchNearbyFishingPlaces chennai shared_place_queries))) =
     {#Some ''p'', Some ''p''#}"
    unfolding mset_map m unfolding d by (simp add: make_poi_def place_at_def)
  have ty: "mset (map poi_type (allPOIs (searchNearbyFishingPlaces chennai shared_place_queries))) =
     {#marina, port#}"
    unfolding mset_map m unfolding d by (simp add: make_poi_def)
  have e0: "?e0 \<in> set shared_place_queries" and e4: "?e4 \<in> set shared_place_queries"
    by (simp_all add: shared_place_queries_def)
  from c[rule_format, OF e0, of "[place_without_geometry, place_at ''p'' 13.10 80.30]" 0]
  have f0: "filter (\<lambda>p. poi_id p = 0)
      (allPOIs (searchNearbyFishingPlaces chennai shared_place_queries)) = []"
    by (simp add: place_without_geometry_def)
  from c[rule_format, OF e0, of "[place_without_geometry, place_at ''p'' 13.10 80.30]" 1]
  have f1: "map place_id (filter (\<lambda>p. poi_id p = 1)
     (allPOIs (searchNearbyFishingPlaces chennai shared_place_queries))) = [Some ''p'']"
    by (simp add: place_at_def make_poi_def)
  from c[rule_format, OF e4, of "[place_at ''p'' 13.10 80.30]" 0]
  have f4: "map place_id (filter (\<lambda>p. poi_id p = 40)
     (allPOIs (searchNearbyFishingPlaces chennai shared_place_queries))) = [Some ''p'']"
    by (simp add: place_at_def make_poi_def)
  from h i p ty f0 f1 f4 show ?thesis by (intro conjI)
qed

section \<open>Properties of GeoMath\<close>

lemma sin_half_sq: "sin (x / 2) * sin (x / 2) = (1 - cos x) / 2"
  for x :: real
  using cos_double_sin[of "x / 2"] by (simp add: power2_eq_square)

lemma hav_a_unit_dot: "hav_a p q = (1 - unit_dot p q) / 2"
proof -
  have dl: "dLat p q = rad (lat q) - rad (lat p)" "dLng p q = rad (lng q) - rad (lng p)"
    by (simp_all add: dLat_def dLng_def rad_def algebra_simps diff_divide_distrib)
  have "hav_a p q = sin (dLat p q / 2) * sin (dLat p q / 2) +
      cos (rad (lat p)) * cos (rad (lat q)) * (sin (dLng p q / 2) * sin (dLng p q / 2))"
    by (simp add: hav_a_def rad_def mult.assoc)
  also have "\<dots> = (1 - cos (dLat p q)) / 2 +
      cos (rad (lat p)) * cos (rad (lat q)) * ((1 - cos (dLng p q)) / 2)"
    unfolding sin_half_sq ..
  also have "\<dots> = (1 - unit_dot p q) / 2"
    unfolding dl cos_diff unit_dot_def ux_def uy_def uz_def by (simp add: field_simps)
  finally show ?thesis .
qed

lemma unit_norm_aux:
  fixes c s cl sl :: real
  assumes "cl * cl + sl * sl = 1" and "c * c + s * s = 1"
  shows "(c * cl) * (c * cl) + (c * sl) * (c * sl) + s * s = 1"
proof -
  have "(c * cl) * (c * cl) + (c * sl) * (c * sl) + s * s = c * c * (cl * cl + sl * sl) + s * s"
    by algebra
  then show ?thesis using assms by simp
qed

lemma unit_norm: "ux p * ux p + uy p * uy p + uz p * uz p = 1"
  unfolding ux_def uy_def uz_def by (rule unit_norm_aux) simp_all

lemma gram_identity:
  fixes u1 u2 u3 v1 v2 v3 w1 w2 w3 :: real
  shows "(u1*u1 + u2*u2 + u3*u3) * (v1*v1 + v2*v2 + v3*v3) * (w1*w1 + w2*w2 + w3*w3)
     + 2 * (u1*v1 + u2*v2 + u3*v3) * (v1*w1 + v2*w2 + v3*w3) * (u1*w1 + u2*w2 + u3*w3)
     - (u1*u1 + u2*u2 + u3*u3) * ((v1*w1 + v2*w2 + v3*w3) * (v1*w1 + v2*w2 + v3*w3))
     - (v1*v1 + v2*v2 + v3*v3) * ((u1*w1 + u2*w2 + u3*w3) * (u1*w1 + u2*w2 + u3*w3))
     - (w1*w1 + w2*w2 + w3*w3) * ((u1*v1 + u2*v2 + u3*v3) * (u1*v1 + u2*v2 + u3*v3))
     = (u1 * (v2*w3 - v3*w2) + u2 * (v3*w1 - v1*w3) + u3 * (v1*w2 - v2*w1)) *
       (u1 * (v2*w3 - v3*w2) + u2 * (v3*w1 - v1*w3) + u3 * (v1*w2 - v2*w1))"
  by algebra

lemma lagrange_identity:
  fixes u1 u2 u3 v1 v2 v3 :: real
  shows "(u1*u1 + u2*u2 + u3*u3) * (v1*v1 + v2*v2 + v3*v3)
     - (u1*v1 + u2*v2 + u3*v3) * (u1*v1 + u2*v2 + u3*v3)
     = (u1*v2 - u2*v1) * (u1*v2 - u2*v1) + (u2*v3 - u3*v2) * (u2*v3 - u3*v2)
       + (u3*v1 - u1*v3) * (u3*v1 - u1*v3)"
  by algebra

lemma unit_dot_sq_le: "unit_dot p q * unit_dot p q \<le> 1"
proof -
  have "1 - unit_dot p q * unit_dot p q =
      (ux p * ux p + uy p * uy p + uz p * uz p) * (ux q * ux q + uy q * uy q + uz q * uz q)
      - unit_dot p q * unit_dot p q"
    by (simp add: unit_norm)
  also have "\<dots> = (ux p * uy q - uy p * ux q) * (ux p * uy q - uy p * ux q)
      + (uy p * uz q - uz p * uy q) * (uy p * uz q - uz p * uy q)
      + (uz p * ux q - ux p * uz q) * (uz p * ux q - ux p * uz q)"
    unfolding unit_dot_def by (rule lagrange_identity)
  also have "0 \<le> \<dots>" by simp
  finally show ?thesis by simp
qed

lemma unit_dot_bounds: "- 1 \<le> unit_dot p q \<and> unit_dot p q \<le> 1"
proof -
  have "(unit_dot p q)\<^sup>2 \<le> 1" using unit_dot_sq_le[of p q] by (simp add: power2_eq_square)
  then have "\<bar>unit_dot p q\<bar> \<le> 1" by (simp add: abs_square_le_1)
  then show ?thesis by auto
qed

lemma hav_a_range: "0 \<le> hav_a p q \<and> hav_a p q \<le> 1"
  using unit_dot_bounds[of p q] by (simp add: hav_a_unit_dot)

lemma two_atan2:
  assumes "0 \<le> a" "a \<le> 1"
  shows "2 * atan2 (sqrt a) (sqrt (1 - a)) = arccos (1 - 2 * a)"
proof (cases "a = 1")
  case True
  then show ?thesis by (simp add: atan2_def)
next
  case False
  with assms have a1: "a < 1" by simp
  define t where "t = arctan (sqrt a / sqrt (1 - a))"
  have pos: "0 < sqrt (1 - a)" using a1 by simp
  have t: "atan2 (sqrt a) (sqrt (1 - a)) = t" using pos by (simp add: atan2_def t_def)
  have "0 \<le> sqrt a / sqrt (1 - a)" using assms a1 by simp
  then have t0: "0 \<le> t" by (simp add: t_def)
  have t1: "t < pi / 2" unfolding t_def by (rule arctan_ubound)
  have sq: "(sqrt a / sqrt (1 - a))\<^sup>2 = a / (1 - a)"
    using assms a1 by (simp add: power_divide)
  have e: "1 + a / (1 - a) = 1 / (1 - a)" using a1 by (simp add: field_simps)
  have "0 \<le> 1 + (sqrt a / sqrt (1 - a))\<^sup>2" by simp
  then have "(cos t)\<^sup>2 = 1 / (1 + (sqrt a / sqrt (1 - a))\<^sup>2)"
    unfolding t_def cos_arctan by (simp only: power_divide real_sqrt_pow2 power_one)
  also have "\<dots> = 1 - a" unfolding sq e using a1 by simp
  finally have "(cos t)\<^sup>2 = 1 - a" .
  then have "cos (2 * t) = 1 - 2 * a" by (simp add: cos_double_cos)
  moreover have "arccos (cos (2 * t)) = 2 * t" using t0 t1 by (intro arccos_cos) linarith+
  ultimately show ?thesis by (simp add: t)
qed

lemma calculateDistance_arccos: "calculateDistance p q = R_earth * arccos (unit_dot p q)"
proof -
  have "2 * atan2 (sqrt (hav_a p q)) (sqrt (1 - hav_a p q)) = arccos (1 - 2 * hav_a p q)"
    using hav_a_range[of p q] by (intro two_atan2) simp_all
  moreover have "1 - 2 * hav_a p q = unit_dot p q" by (simp add: hav_a_unit_dot field_simps)
  ultimately show ?thesis by (simp add: calculateDistance_def Let_def)
qed

lemma gram_nonneg:
  "0 \<le> 1 + 2 * unit_dot p q * unit_dot q r * unit_dot p r
     - unit_dot q r * unit_dot q r - unit_dot p r * unit_dot p r - unit_dot p q * unit_dot p q"
proof -
  let ?d = "ux p * (uy q * uz r - uz q * uy r) + uy p * (uz q * ux r - ux q * uz r)
      + uz p * (ux q * uy r - uy q * ux r)"
  have "(ux p * ux p + uy p * uy p + uz p * uz p) * (ux q * ux q + uy q * uy q + uz q * uz q)
       * (ux r * ux r + uy r * uy r + uz r * uz r)
     + 2 * unit_dot p q * unit_dot q r * unit_dot p r
     - (ux p * ux p + uy p * uy p + uz p * uz p) * (unit_dot q r * unit_dot q r)
     - (ux q * ux q + uy q * uy q + uz q * uz q) * (unit_dot p r * unit_dot p r)
     - (ux r * ux r + uy r * uy r + uz r * uz r) * (unit_dot p q * unit_dot p q)
     = ?d * ?d"
    unfolding unit_dot_def by (rule gram_identity)
  then have "1 + 2 * unit_dot p q * unit_dot q r * unit_dot p r
     - unit_dot q r * unit_dot q r - unit_dot p r * unit_dot p r - unit_dot p q * unit_dot p q
     = ?d * ?d"
    by (simp add: unit_norm)
  then show ?thesis by simp
qed

lemma arccos_triangle:
  "arccos (unit_dot p r) \<le> arccos (unit_dot p q) + arccos (unit_dot q r)"
proof -
  define x where "x = unit_dot p q"
  define y where "y = unit_dot q r"
  define z where "z = unit_dot p r"
  have bx: "- 1 \<le> x" "x \<le> 1" and by': "- 1 \<le> y" "y \<le> 1" and bz: "- 1 \<le> z" "z \<le> 1"
    using unit_dot_bounds by (simp_all add: x_def y_def z_def)
  have g: "0 \<le> 1 + 2 * x * y * z - y * y - z * z - x * x"
    using gram_nonneg[of p q r] by (simp add: x_def y_def z_def)
  define \<alpha> where "\<alpha> = arccos x"
  define \<beta> where "\<beta> = arccos y"
  have a: "0 \<le> \<alpha>" "\<alpha> \<le> pi" "cos \<alpha> = x" using arccos[OF bx] by (simp_all add: \<alpha>_def)
  have b: "0 \<le> \<beta>" "\<beta> \<le> pi" "cos \<beta> = y" using arccos[OF by'] by (simp_all add: \<beta>_def)
  have sa: "sin \<alpha> = sqrt (1 - x\<^sup>2)" using bx by (simp add: \<alpha>_def sin_arccos_abs abs_le_iff)
  have sb: "sin \<beta> = sqrt (1 - y\<^sup>2)" using by' by (simp add: \<beta>_def sin_arccos_abs abs_le_iff)
  show ?thesis
  proof (cases "\<alpha> + \<beta> \<le> pi")
    case False
    have "arccos z \<le> pi" using bz by (rule arccos_ubound)
    with False show ?thesis by (simp add: x_def y_def z_def \<alpha>_def \<beta>_def)
  next
    case True
    have "(x * y - z)\<^sup>2 \<le> (1 - x\<^sup>2) * (1 - y\<^sup>2)"
    proof -
      have "(1 - x\<^sup>2) * (1 - y\<^sup>2) - (x * y - z)\<^sup>2 = 1 + 2 * x * y * z - y * y - z * z - x * x"
        by (simp add: power2_eq_square algebra_simps)
      with g show ?thesis by simp
    qed
    then have "x * y - z \<le> sqrt ((1 - x\<^sup>2) * (1 - y\<^sup>2))" by (rule real_le_rsqrt)
    then have "x * y - z \<le> sin \<alpha> * sin \<beta>" by (simp add: sa sb real_sqrt_mult)
    then have c: "cos (\<alpha> + \<beta>) \<le> z" by (simp add: cos_add a b)
    have "arccos z \<le> arccos (cos (\<alpha> + \<beta>))"
      using c bz by (intro arccos_le_arccos) simp_all
    also have "arccos (cos (\<alpha> + \<beta>)) = \<alpha> + \<beta>" using a b True by (intro arccos_cos) simp_all
    finally show ?thesis by (simp add: x_def y_def z_def \<alpha>_def \<beta>_def)
  qed
qed

lemma unit_dot_self: "unit_dot p p = 1"
  by (simp add: unit_dot_def unit_norm)

lemma unit_dot_commute: "unit_dot p q = unit_dot q p"
  by (simp add: unit_dot_def mult.commute)

text \<open>
  The exact formula is a metric on the sphere. Over the real numbers, for all
  coordinates (valid or not): the distance from a point to itself is 0, the
  distance is symmetric, and it satisfies the triangle inequality; it is never
  negative and never more than half the circumference. This is a fact of the
  formula, not of its evaluation in doubles, where the distance of two (nearly)
  antipodal points can be \<^verbatim>\<open>NaN\<close>.
\<close>

lemma exact_formula_metric:
  "calculateDistance a a = 0 \<and>
   calculateDistance a b = calculateDistance b a \<and>
   calculateDistance a c \<le> calculateDistance a b + calculateDistance b c \<and>
   0 \<le> calculateDistance a b \<and> calculateDistance a b \<le> R_earth * pi"
proof -
  have r: "0 \<le> R_earth" by (simp add: R_earth_def)
  have 1: "calculateDistance a a = 0" by (simp add: calculateDistance_arccos unit_dot_self)
  have 2: "calculateDistance a b = calculateDistance b a"
    by (simp add: calculateDistance_arccos unit_dot_commute[of a b])
  have "R_earth * arccos (unit_dot a c) \<le>
      R_earth * (arccos (unit_dot a b) + arccos (unit_dot b c))"
    using arccos_triangle[of a c b] r by (rule mult_left_mono)
  then have 3: "calculateDistance a c \<le> calculateDistance a b + calculateDistance b c"
    by (simp add: calculateDistance_arccos algebra_simps)
  have "0 \<le> arccos (unit_dot a b)" "arccos (unit_dot a b) \<le> pi"
    using unit_dot_bounds[of a b] by (simp_all add: arccos_lbound arccos_ubound)
  then have 4: "0 \<le> calculateDistance a b" "calculateDistance a b \<le> R_earth * pi"
    using r by (simp_all add: calculateDistance_arccos mult_left_mono)
  from 1 2 3 4 show ?thesis by (intro conjI)
qed

subsection \<open>A numerical instance\<close>

lemma cos_taylor_bound:
  "\<bar>cos x - (\<Sum>m<n. cos_coeff m * x ^ m)\<bar> \<le> \<bar>x\<bar> ^ n / fact n"
proof -
  from Maclaurin_cos_expansion[of x n] obtain t where
    "cos x = (\<Sum>m<n. cos_coeff m * x ^ m) + (cos (t + 1/2 * real n * pi) / fact n) * x ^ n"
    by blast
  then have "\<bar>cos x - (\<Sum>m<n. cos_coeff m * x ^ m)\<bar> =
      \<bar>cos (t + 1/2 * real n * pi)\<bar> * (\<bar>x\<bar> ^ n / fact n)"
    by (simp add: abs_mult power_abs)
  also have "\<dots> \<le> 1 * (\<bar>x\<bar> ^ n / fact n)"
    by (rule mult_right_mono) simp_all
  finally show ?thesis by simp
qed

lemma cos_lower2:
  fixes x :: real
  shows "1 - x\<^sup>2 / 2 \<le> cos x"
proof -
  have "(\<Sum>m<2. cos_coeff m * x ^ m) = 1"
    by (simp add: lessThan_Suc eval_nat_numeral cos_coeff_Suc sin_coeff_Suc)
  moreover have "fact 2 = (2 :: real)" by (simp add: eval_nat_numeral)
  ultimately have "\<bar>cos x - 1\<bar> \<le> \<bar>x\<bar>\<^sup>2 / 2" using cos_taylor_bound[of x 2] by simp
  then show ?thesis by (simp add: abs_le_iff)
qed

lemma cos_upper4:
  fixes x :: real
  shows "cos x \<le> 1 - x\<^sup>2 / 2 + x ^ 4 / 24"
proof -
  have s: "(\<Sum>m<4. cos_coeff m * x ^ m) = 1 - x\<^sup>2 / 2"
    by (simp add: lessThan_Suc eval_nat_numeral cos_coeff_Suc sin_coeff_Suc)
  have f: "fact 4 = (24 :: real)" by (simp add: eval_nat_numeral)
  have a: "\<bar>x\<bar> ^ 4 = x ^ 4" by (simp add: power_even_abs)
  note b = cos_taylor_bound[of x 4, unfolded s f a]
  then show ?thesis by linarith
qed

lemma cos_poly8:
  fixes x :: real
  assumes "0 \<le> x"
  shows "1 - x\<^sup>2 / 2 + x ^ 4 / 24 - x ^ 6 / 720 + x ^ 8 / 40320 - x ^ 10 / 3628800 \<le> cos x"
    and "cos x \<le> 1 - x\<^sup>2 / 2 + x ^ 4 / 24 - x ^ 6 / 720 + x ^ 8 / 40320 + x ^ 10 / 3628800"
proof -
  have "(\<Sum>m<10. cos_coeff m * x ^ m) = 1 - x\<^sup>2 / 2 + x ^ 4 / 24 - x ^ 6 / 720 + x ^ 8 / 40320"
    by (simp add: lessThan_Suc eval_nat_numeral cos_coeff_Suc sin_coeff_Suc)
  moreover have "fact 10 = (3628800 :: real)" by (simp add: eval_nat_numeral)
  ultimately have "\<bar>cos x - (1 - x\<^sup>2 / 2 + x ^ 4 / 24 - x ^ 6 / 720 + x ^ 8 / 40320)\<bar>
      \<le> \<bar>x\<bar> ^ 10 / 3628800"
    using cos_taylor_bound[of x 10] by simp
  moreover have "\<bar>x\<bar> = x" using assms by simp
  ultimately have b: "\<bar>cos x - (1 - x\<^sup>2 / 2 + x ^ 4 / 24 - x ^ 6 / 720 + x ^ 8 / 40320)\<bar>
      \<le> x ^ 10 / 3628800" by simp
  from b show "1 - x\<^sup>2 / 2 + x ^ 4 / 24 - x ^ 6 / 720 + x ^ 8 / 40320 - x ^ 10 / 3628800 \<le> cos x"
    by linarith
  from b show "cos x \<le> 1 - x\<^sup>2 / 2 + x ^ 4 / 24 - x ^ 6 / 720 + x ^ 8 / 40320 + x ^ 10 / 3628800"
    by linarith
qed

lemma sin_lower3:
  fixes x :: real
  assumes "0 \<le> x"
  shows "x - x ^ 3 / 6 \<le> sin x"
proof -
  have s: "(\<Sum>m<3. sin_coeff m * x ^ m) = x"
    by (simp add: lessThan_Suc eval_nat_numeral cos_coeff_Suc sin_coeff_Suc)
  have f: "inverse (fact 3) = (1 / 6 :: real)" by (simp add: eval_nat_numeral)
  have a: "\<bar>x\<bar> = x" using assms by simp
  note b = Maclaurin_sin_bound[of x 3, unfolded s f a]
  then show ?thesis by linarith
qed

lemma pi_lower: "3.141 < pi"
proof -
  have "(0::real) < 1 - (3141/2000)\<^sup>2 / 2 + (3141/2000) ^ 4 / 24 - (3141/2000) ^ 6 / 720
      + (3141/2000) ^ 8 / 40320 - (3141/2000) ^ 10 / 3628800"
    by (simp add: power_divide)
  also have "\<dots> \<le> cos (3141/2000)" by (rule cos_poly8(1)) simp
  finally have c: "0 < cos (3141/2000 :: real)" .
  have "3141/2000 < pi / 2"
  proof (rule ccontr)
    assume "\<not> 3141/2000 < pi / 2"
    then have "pi / 2 \<le> 3141/2000" by simp
    moreover have "(3141/2000 :: real) \<le> pi" using pi_ge_two by simp
    ultimately have "cos (3141/2000) \<le> cos (pi / 2)" by (intro cos_monotone_0_pi_le) simp_all
    with c show False by simp
  qed
  then show ?thesis by simp
qed

lemma pi_upper: "pi < 3.142"
proof -
  have "cos (1571/1000 :: real) \<le> 1 - (1571/1000)\<^sup>2 / 2 + (1571/1000) ^ 4 / 24
      - (1571/1000) ^ 6 / 720 + (1571/1000) ^ 8 / 40320 + (1571/1000) ^ 10 / 3628800"
    by (rule cos_poly8(2)) simp
  also have "\<dots> < 0" by (simp add: power_divide)
  finally have c: "cos (1571/1000 :: real) < 0" .
  have "pi / 2 < 1571/1000"
  proof (rule ccontr)
    assume "\<not> pi / 2 < 1571/1000"
    then have "1571/1000 \<le> pi / 2" by simp
    then have "0 \<le> cos (1571/1000 :: real)" by (intro cos_ge_zero) simp_all
    with c show False by simp
  qed
  then show ?thesis by simp
qed

lemma sin_interval:
  fixes x L U :: real
  assumes "0 \<le> L" "L \<le> x" "x \<le> U"
  shows "L - U ^ 3 / 6 \<le> sin x" and "sin x \<le> U"
proof -
  have x0: "0 \<le> x" using assms by simp
  have "x ^ 3 \<le> U ^ 3" using x0 assms(3) by (rule power_mono[rotated])
  moreover have "x - x ^ 3 / 6 \<le> sin x" using x0 by (rule sin_lower3)
  ultimately show "L - U ^ 3 / 6 \<le> sin x" using assms(2) by linarith
  have "sin x \<le> x" using x0 by (rule sin_x_le_x)
  then show "sin x \<le> U" using assms(3) by simp
qed

lemma cos_interval:
  fixes x L U :: real
  assumes "0 \<le> L" "L \<le> x" "x \<le> U"
  shows "1 - U\<^sup>2 / 2 \<le> cos x" and "cos x \<le> 1 - L\<^sup>2 / 2 + U ^ 4 / 24"
proof -
  have x0: "0 \<le> x" using assms by simp
  have u2: "x\<^sup>2 \<le> U\<^sup>2" using x0 assms(3) by (rule power_mono[rotated])
  have u4: "x ^ 4 \<le> U ^ 4" using x0 assms(3) by (rule power_mono[rotated])
  have l2: "L\<^sup>2 \<le> x\<^sup>2" using assms(1,2) by (rule power_mono[rotated])
  show "1 - U\<^sup>2 / 2 \<le> cos x" using cos_lower2[of x] u2 by linarith
  show "cos x \<le> 1 - L\<^sup>2 / 2 + U ^ 4 / 24" using cos_upper4[of x] u4 l2 by linarith
qed

lemma hav_interval:
  fixes s1 s2 c1 c2 :: real
  assumes "0 \<le> s1L" "s1L \<le> s1" "s1 \<le> s1U"
    and "0 \<le> s2L" "s2L \<le> s2" "s2 \<le> s2U"
    and "0 \<le> c1L" "c1L \<le> c1" "c1 \<le> c1U"
    and "0 \<le> c2L" "c2L \<le> c2" "c2 \<le> c2U"
  shows "s1L * s1L + c1L * c2L * s2L * s2L \<le> s1 * s1 + c1 * c2 * s2 * s2"
    and "s1 * s1 + c1 * c2 * s2 * s2 \<le> s1U * s1U + c1U * c2U * s2U * s2U"
proof -
  have p: "0 \<le> s1" "0 \<le> s2" "0 \<le> c1" "0 \<le> c2" using assms by simp_all
  have a1: "s1L * s1L \<le> s1 * s1" using assms p by (intro mult_mono) simp_all
  have b1: "c1L * c2L \<le> c1 * c2" using assms p by (intro mult_mono) simp_all
  have b2: "c1L * c2L * s2L \<le> c1 * c2 * s2" using b1 assms p by (intro mult_mono) simp_all
  have b3: "c1L * c2L * s2L * s2L \<le> c1 * c2 * s2 * s2" using b2 assms p by (intro mult_mono) simp_all
  from a1 b3 show "s1L * s1L + c1L * c2L * s2L * s2L \<le> s1 * s1 + c1 * c2 * s2 * s2" by simp
  have q: "0 \<le> s1U" "0 \<le> s2U" "0 \<le> c1U" "0 \<le> c2U" using assms p by simp_all
  have a2: "s1 * s1 \<le> s1U * s1U" using assms p q by (intro mult_mono) simp_all
  have d1: "c1 * c2 \<le> c1U * c2U" using assms p q by (intro mult_mono) simp_all
  have d2: "c1 * c2 * s2 \<le> c1U * c2U * s2U" using d1 assms p q by (intro mult_mono) simp_all
  have d3: "c1 * c2 * s2 * s2 \<le> c1U * c2U * s2U * s2U" using d2 assms p q by (intro mult_mono) simp_all
  from a2 d3 show "s1 * s1 + c1 * c2 * s2 * s2 \<le> s1U * s1U + c1U * c2U * s2U * s2U" by simp
qed

lemma arccos_lower:
  assumes "0 \<le> t" "t \<le> pi" "- 1 \<le> y" "y \<le> cos t"
  shows "t \<le> arccos y"
proof -
  have "arccos (cos t) \<le> arccos y" using assms(3,4) by (rule arccos_le_arccos) simp
  then show ?thesis using assms(1,2) by (simp add: arccos_cos)
qed

lemma arccos_upper:
  assumes "0 \<le> t" "t \<le> pi" "cos t \<le> y" "y \<le> 1"
  shows "arccos y \<le> t"
proof -
  have "arccos y \<le> arccos (cos t)" using _ assms(3,4) by (rule arccos_le_arccos) simp
  then show ?thesis using assms(1,2) by (simp add: arccos_cos)
qed

lemma hav_a_marina:
  "105959 / 1250000000000 \<le> hav_a chennai \<lparr> lat = 13.10, lng = 80.30 \<rparr> \<and>
   hav_a chennai \<lparr> lat = 13.10, lng = 80.30 \<rparr> \<le> 169679 / 2000000000000"
proof -
  let ?t = "\<lparr> lat = 13.10, lng = 80.30 \<rparr> :: UserLocation"
  define x1 where "x1 = dLat chennai ?t / 2"
  define x2 where "x2 = dLng chennai ?t / 2"
  define f1 where "f1 = lat chennai * pi / 180"
  define f2 where "f2 = lat ?t * pi / 180"
  note p = pi_lower pi_upper
  have x1: "75471 / 500000000 \<le> x1" "x1 \<le> 150991 / 1000000000"
    using p by (simp_all add: x1_def dLat_def chennai_def)
  have x2: "127821 / 500000000 \<le> x2" "x2 \<le> 63931 / 250000000"
    using p by (simp_all add: x2_def dLng_def chennai_def)
  have f1: "228293 / 1000000 \<le> f1" "f1 \<le> 114183 / 500000"
    using p by (simp_all add: f1_def chennai_def)
  have f2: "45719 / 200000 \<le> f2" "f2 \<le> 57167 / 250000"
    using p by (simp_all add: f2_def)
  have s1: "150941 / 1000000000 \<le> sin x1" "sin x1 \<le> 150991 / 1000000000"
  proof -
    have "(150941 / 1000000000 :: real) \<le> 75471 / 500000000 - (150991 / 1000000000) ^ 3 / 6"
      by (simp add: power_divide)
    also have "\<dots> \<le> sin x1" using _ x1 by (rule sin_interval(1)) simp
    finally show "150941 / 1000000000 \<le> sin x1" .
    show "sin x1 \<le> 150991 / 1000000000" using _ x1 by (rule sin_interval(2)) simp
  qed
  have s2: "255641 / 1000000000 \<le> sin x2" "sin x2 \<le> 63931 / 250000000"
  proof -
    have "(255641 / 1000000000 :: real) \<le> 127821 / 500000000 - (63931 / 250000000) ^ 3 / 6"
      by (simp add: power_divide)
    also have "\<dots> \<le> sin x2" using _ x2 by (rule sin_interval(1)) simp
    finally show "255641 / 1000000000 \<le> sin x2" .
    show "sin x2 \<le> 63931 / 250000000" using _ x2 by (rule sin_interval(2)) simp
  qed
  have c1: "243481 / 250000 \<le> cos f1" "cos f1 \<le> 194811 / 200000"
  proof -
    have "(243481 / 250000 :: real) \<le> 1 - (114183 / 500000)\<^sup>2 / 2"
      by (simp add: power_divide)
    also have "\<dots> \<le> cos f1" using _ f1 by (rule cos_interval(1)) simp
    finally show "243481 / 250000 \<le> cos f1" .
    have "cos f1 \<le> 1 - (228293 / 1000000)\<^sup>2 / 2 + (114183 / 500000) ^ 4 / 24"
      using _ f1 by (rule cos_interval(2)) simp
    also have "\<dots> \<le> 194811 / 200000" by (simp add: power_divide)
    finally show "cos f1 \<le> 194811 / 200000" .
  qed
  have c2: "194771 / 200000 \<le> cos f2" "cos f2 \<le> 973987 / 1000000"
  proof -
    have "(194771 / 200000 :: real) \<le> 1 - (57167 / 250000)\<^sup>2 / 2"
      by (simp add: power_divide)
    also have "\<dots> \<le> cos f2" using _ f2 by (rule cos_interval(1)) simp
    finally show "194771 / 200000 \<le> cos f2" .
    have "cos f2 \<le> 1 - (45719 / 200000)\<^sup>2 / 2 + (57167 / 250000) ^ 4 / 24"
      using _ f2 by (rule cos_interval(2)) simp
    also have "\<dots> \<le> 973987 / 1000000" by (simp add: power_divide)
    finally show "cos f2 \<le> 973987 / 1000000" .
  qed
  have h: "hav_a chennai ?t = sin x1 * sin x1 + cos f1 * cos f2 * sin x2 * sin x2"
    by (simp add: hav_a_def x1_def x2_def f1_def f2_def)
  have "(105959 / 1250000000000 :: real) \<le>
      150941 / 1000000000 * (150941 / 1000000000) +
      243481 / 250000 * (194771 / 200000) * (255641 / 1000000000) * (255641 / 1000000000)"
    by simp
  also have "\<dots> \<le> sin x1 * sin x1 + cos f1 * cos f2 * sin x2 * sin x2"
    using _ s1 _ s2 _ c1 _ c2 by (rule hav_interval(1)) simp_all
  finally have lo: "105959 / 1250000000000 \<le> hav_a chennai ?t" unfolding h .
  have "sin x1 * sin x1 + cos f1 * cos f2 * sin x2 * sin x2 \<le>
      150991 / 1000000000 * (150991 / 1000000000) +
      194811 / 200000 * (973987 / 1000000) * (63931 / 250000000) * (63931 / 250000000)"
    using _ s1 _ s2 _ c1 _ c2 by (rule hav_interval(2)) simp_all
  also have "\<dots> \<le> (169679 / 2000000000000 :: real)" by simp
  finally have up: "hav_a chennai ?t \<le> 169679 / 2000000000000" unfolding h .
  from lo up show ?thesis by simp
qed

lemma distance_marina:
  "3.70 \<le> calculateDistance chennai \<lparr> lat = 13.10, lng = 80.30 \<rparr> \<and>
   calculateDistance chennai \<lparr> lat = 13.10, lng = 80.30 \<rparr> \<le> 3.72"
proof -
  let ?t = "\<lparr> lat = 13.10, lng = 80.30 \<rparr> :: UserLocation"
  define y where "y = unit_dot chennai ?t"
  have y: "y = 1 - 2 * hav_a chennai ?t" by (simp add: y_def hav_a_unit_dot field_simps)
  have yb: "- 1 \<le> y" "y \<le> 1" using unit_dot_bounds[of chennai ?t] by (simp_all add: y_def)
  note a = hav_a_marina
  have d: "calculateDistance chennai ?t = 6371 * arccos y"
    by (simp add: calculateDistance_arccos y_def R_earth_def)
  have pi3: "3 < pi" using pi_lower by simp
  have "y \<le> 1 - (3.70 / 6371)\<^sup>2 / 2"
  proof -
    have "y \<le> 1 - 2 * (105959 / 1250000000000)" using a by (simp add: y)
    also have "\<dots> \<le> 1 - (3.70 / 6371)\<^sup>2 / 2" by (simp add: power_divide)
    finally show ?thesis .
  qed
  also have "\<dots> \<le> cos (3.70 / 6371)" by (rule cos_lower2)
  finally have "3.70 / 6371 \<le> arccos y" using yb(1) pi3 by (intro arccos_lower) simp_all
  then have lo: "3.70 \<le> calculateDistance chennai ?t" unfolding d by simp
  have "cos (3.72 / 6371 :: real) \<le> 1 - (3.72 / 6371)\<^sup>2 / 2 + (3.72 / 6371) ^ 4 / 24"
    by (rule cos_upper4)
  also have "\<dots> \<le> 1 - 2 * (169679 / 2000000000000)" by (simp add: power_divide)
  also have "\<dots> \<le> y" using a by (simp add: y)
  finally have "arccos y \<le> 3.72 / 6371" using yb(2) pi3 by (intro arccos_upper) simp_all
  then have up: "calculateDistance chennai ?t \<le> 3.72" unfolding d by simp
  from lo up show ?thesis by simp
qed

lemma marina_only_one_per_category: "one_per_category marina_only_queries"
  by (auto simp: one_per_category_def marina_only_queries_def length_searches)

lemma marina_only_published:
  "setFishingPOIs_calls (searchNearbyFishingPlaces chennai marina_only_queries) =
     [[make_poi chennai 0 marina 0 (place_at ''marina'' 13.10 80.30)
         \<lparr> lat = 13.10, lng = 80.30 \<rparr>]]"
proof -
  note f = one_per_category_facts[OF marina_only_one_per_category]
  have d: "discovered chennai marina_only_queries =
     [make_poi chennai 0 marina 0 (place_at ''marina'' 13.10 80.30)
         \<lparr> lat = 13.10, lng = 80.30 \<rparr>]"
    by (simp add: discovered_def event_pois_def marina_only_queries_def place_at_def searches_def)
  show ?thesis using run_full[OF f(2) f(1), of chennai] unfolding d by simp
qed

text \<open>
  C9, as the claim states it, fails in the distance: the entry that the run
  publishes for the one result at \<open>(13.10, 80.30)\<close> has a distance of at least 3.70
  from the origin \<open>(13.0827, 80.2707)\<close>, which is 0.8 or more above 2.9.
\<close>

theorem marina_distance_counterexample:
  "setFishingPOIs_calls (searchNearbyFishingPlaces chennai marina_only_queries) =
     [[make_poi chennai 0 marina 0 (place_at ''marina'' 13.10 80.30)
         \<lparr> lat = 13.10, lng = 80.30 \<rparr>]] \<and>
   2.9 + 0.8 \<le> distance (make_poi chennai 0 marina 0 (place_at ''marina'' 13.10 80.30)
         \<lparr> lat = 13.10, lng = 80.30 \<rparr>)"
proof -
  have "distance (make_poi chennai 0 marina 0 (place_at ''marina'' 13.10 80.30)
         \<lparr> lat = 13.10, lng = 80.30 \<rparr>) =
      calculateDistance chennai \<lparr> lat = 13.10, lng = 80.30 \<rparr>"
    by (rule make_poi_distance)
  moreover have "(2.9 + 0.8 :: real) \<le> 3.70" by simp
  ultimately have "2.9 + 0.8 \<le> distance (make_poi chennai 0 marina 0
      (place_at ''marina'' 13.10 80.30) \<lparr> lat = 13.10, lng = 80.30 \<rparr>)"
    using distance_marina by linarith
  with marina_only_published show ?thesis by (intro conjI)
qed

text \<open>
  C9, amended: for the origin \<open>(13.0827, 80.2707)\<close> and category 0 giving one result at
  \<open>(13.10, 80.30)\<close>, the entry published has the id 0, the type \<^verbatim>\<open>marina\<close>, and a
  distance between 3.70 and 3.72.
\<close>

theorem marina_end_to_end:
  "setFishingPOIs_calls (searchNearbyFishingPlaces chennai marina_only_queries) =
     [[make_poi chennai 0 marina 0 (place_at ''marina'' 13.10 80.30)
         \<lparr> lat = 13.10, lng = 80.30 \<rparr>]] \<and>
   poi_id (make_poi chennai 0 marina 0 (place_at ''marina'' 13.10 80.30)
         \<lparr> lat = 13.10, lng = 80.30 \<rparr>) = 0 \<and>
   poi_type (make_poi chennai 0 marina 0 (place_at ''marina'' 13.10 80.30)
         \<lparr> lat = 13.10, lng = 80.30 \<rparr>) = marina \<and>
   3.70 \<le> distance (make_poi chennai 0 marina 0 (place_at ''marina'' 13.10 80.30)
         \<lparr> lat = 13.10, lng = 80.30 \<rparr>) \<and>
   distance (make_poi chennai 0 marina 0 (place_at ''marina'' 13.10 80.30)
         \<lparr> lat = 13.10, lng = 80.30 \<rparr>) \<le> 3.72"
proof -
  have d: "distance (make_poi chennai 0 marina 0 (place_at ''marina'' 13.10 80.30)
         \<lparr> lat = 13.10, lng = 80.30 \<rparr>) =
      calculateDistance chennai \<lparr> lat = 13.10, lng = 80.30 \<rparr>"
    by (rule make_poi_distance)
  have i: "poi_id (make_poi chennai 0 marina 0 (place_at ''marina'' 13.10 80.30)
         \<lparr> lat = 13.10, lng = 80.30 \<rparr>) = 0" by simp
  have t: "poi_type (make_poi chennai 0 marina 0 (place_at ''marina'' 13.10 80.30)
         \<lparr> lat = 13.10, lng = 80.30 \<rparr>) = marina" by (simp add: make_poi_def)
  from distance_marina have b: "3.70 \<le> distance (make_poi chennai 0 marina 0
      (place_at ''marina'' 13.10 80.30) \<lparr> lat = 13.10, lng = 80.30 \<rparr>)"
    "distance (make_poi chennai 0 marina 0 (place_at ''marina'' 13.10 80.30)
         \<lparr> lat = 13.10, lng = 80.30 \<rparr>) \<le> 3.72"
    unfolding d by simp_all
  from marina_only_published i t b show ?thesis by (intro conjI)
qed

end
